theory Spec2Isabelle
  imports Complex_Main "HOL-Library.Log_Nat"
begin

section \<open>JavaScript numbers\<close>

text \<open>
  The image-positioning plugin computes with JavaScript Numbers, that is IEEE 754
  binary64 values. A Number is modelled as \<open>NaN\<close>, one of the two infinities, or a
  finite value given by the rational it denotes. The two zeros are identified: the only
  place of the program where a negative zero can arise is inside the CSS value
  normaliser (\<open>parseInt("-0")\<close>), where it is turned into the integer 0 by \<open>>> 0\<close>
  before anything can observe its sign; every divisor of the program is the constant 100
  or an integer attribute of the DOM.
\<close>

datatype jsnum = NaN | PInf | NInf | Fin rat

text \<open>
  \<open>ilog2 q\<close> is, for \<open>q > 0\<close>, the exponent \<open>e\<close> with \<open>2^e \<le> q < 2^(e+1)\<close>.
\<close>

definition ilog2 :: "rat \<Rightarrow> int" where
  "ilog2 q = (if 1 \<le> q then int (floorlog 2 (nat \<lfloor>q\<rfloor>)) - 1
              else - int (floorlog 2 (nat (\<lceil>1 / q\<rceil> - 1))))"

definition round_half_even :: "rat \<Rightarrow> int" where
  "round_half_even x =
     (let f = \<lfloor>x\<rfloor>; d = x - of_int f
      in if d < 1 / 2 then f else if 1 / 2 < d then f + 1
         else if even f then f else f + 1)"

text \<open>
  Rounding of an exact result to binary64, round-to-nearest, ties-to-even. The exponent
  \<open>e\<close> of the result is at least \<open>-1022\<close> (below it the spacing stays \<open>2^-1074\<close>),
  the significand \<open>n\<close> is the magnitude in units of \<open>2^(e-52)\<close>, rounded to an
  integer of at most 53 bits, and the result overflows to an infinity when its exponent
  exceeds 1023, also through the carry of the rounding.
\<close>

definition round_double :: "rat \<Rightarrow> jsnum" where
  "round_double q =
     (if q = 0 then Fin 0
      else let e = max (ilog2 \<bar>q\<bar>) (- 1022);
               n = round_half_even (\<bar>q\<bar> / 2 powi (e - 52))
           in if 1024 \<le> e \<or> (e = 1023 \<and> n = 9007199254740992)
              then (if 0 < q then PInf else NInf)
              else Fin (sgn q * (of_int n * 2 powi (e - 52))))"

text \<open>
  An integer-valued Number. The integers the program holds in variables (DOM attributes
  of WebIDL type \<open>long\<close> and \<open>unsigned long\<close>, results of \<open>>>\<close>, and sums of a few
  of those) are below \<open>2^53\<close> in magnitude, where binary64 is exact; they are modelled
  as \<open>int\<close> and enter the floating-point operations through \<open>num\<close>.
\<close>

definition num :: "int \<Rightarrow> jsnum" where
  "num n = Fin (of_int n)"

text \<open>The operators \<open>/\<close>, \<open>*\<close> and \<open>>\<close> of the language on Numbers.\<close>

fun fdiv :: "jsnum \<Rightarrow> jsnum \<Rightarrow> jsnum" where
  "fdiv NaN _ = NaN"
| "fdiv _ NaN = NaN"
| "fdiv (Fin a) (Fin b) =
     (if b = 0 then (if a = 0 then NaN else if 0 < a then PInf else NInf)
      else round_double (a / b))"
| "fdiv (Fin a) _ = Fin 0"
| "fdiv PInf (Fin b) = (if b < 0 then NInf else PInf)"
| "fdiv NInf (Fin b) = (if b < 0 then PInf else NInf)"
| "fdiv _ _ = NaN"

fun fmul :: "jsnum \<Rightarrow> jsnum \<Rightarrow> jsnum" where
  "fmul NaN _ = NaN"
| "fmul _ NaN = NaN"
| "fmul (Fin a) (Fin b) = round_double (a * b)"
| "fmul (Fin a) PInf = (if a = 0 then NaN else if 0 < a then PInf else NInf)"
| "fmul (Fin a) NInf = (if a = 0 then NaN else if 0 < a then NInf else PInf)"
| "fmul PInf (Fin b) = (if b = 0 then NaN else if 0 < b then PInf else NInf)"
| "fmul NInf (Fin b) = (if b = 0 then NaN else if 0 < b then NInf else PInf)"
| "fmul PInf PInf = PInf"
| "fmul NInf NInf = PInf"
| "fmul PInf NInf = NInf"
| "fmul NInf PInf = NInf"

fun fgt :: "jsnum \<Rightarrow> jsnum \<Rightarrow> bool" where
  "fgt NaN _ = False"
| "fgt _ NaN = False"
| "fgt (Fin a) (Fin b) = (b < a)"
| "fgt PInf PInf = False"
| "fgt PInf _ = True"
| "fgt NInf _ = False"
| "fgt (Fin a) NInf = True"
| "fgt (Fin a) PInf = False"

text \<open>
  \<open>ToInt32\<close> of the language: \<open>NaN\<close> and the infinities give 0; a finite value is
  truncated toward zero and reduced modulo \<open>2^32\<close> into the signed 32-bit range.
  \<open>x >> n\<close> is \<open>ToInt32 x\<close> shifted right by \<open>n\<close> bits with sign propagation.
\<close>

definition toward_zero :: "rat \<Rightarrow> int" where
  "toward_zero q = (if 0 \<le> q then \<lfloor>q\<rfloor> else \<lceil>q\<rceil>)"

definition int32 :: "int \<Rightarrow> int" where
  "int32 i = (let r = i mod 2 ^ 32 in if 2 ^ 31 \<le> r then r - 2 ^ 32 else r)"

fun ToInt32 :: "jsnum \<Rightarrow> int" where
  "ToInt32 (Fin q) = int32 (toward_zero q)"
| "ToInt32 _ = 0"

definition SignedRightShift :: "jsnum \<Rightarrow> nat \<Rightarrow> int" where
  "SignedRightShift x n = ToInt32 x div 2 ^ n"

section \<open>Strings\<close>

text \<open>
  Strings are sequences of ASCII characters, which is what a browser returns for the
  computed margins and maximal sizes and what class names of the plugin are.
  \<open>NumberToString\<close> is the conversion the operator \<open>+\<close> applies to an integer-valued
  Number before it appends \<open>"px"\<close> (decimal digits, for magnitudes below \<open>10^21\<close>).
\<close>

fun decimal :: "nat \<Rightarrow> string" where
  "decimal n = (if n < 10 then [char_of (48 + n)]
                else decimal (n div 10) @ [char_of (48 + n mod 10)])"

declare decimal.simps [simp del]

definition NumberToString :: "int \<Rightarrow> string" where
  "NumberToString i = (if i < 0 then CHR ''-'' # decimal (nat (- i)) else decimal (nat i))"

text \<open>
  \<open>parseInt(string)\<close> without a radix: leading white space is skipped, a sign is read,
  a prefix \<open>0x\<close> or \<open>0X\<close> selects radix 16, and the longest run of digits of the radix
  is the integer; no digit at all gives \<open>NaN\<close>. The integer becomes the nearest Number
  (the language lets an implementation replace decimal digits after the twentieth by
  zeros; the model keeps them).
\<close>

definition StrWhiteSpaceChar :: "char \<Rightarrow> bool" where
  "StrWhiteSpaceChar c \<longleftrightarrow> c \<in> {CHR 0x09, CHR 0x0A, CHR 0x0B, CHR 0x0C, CHR 0x0D, CHR '' ''}"

definition digitValue :: "char \<Rightarrow> nat option" where
  "digitValue c =
     (let k = (of_char c :: nat)
      in if 48 \<le> k \<and> k \<le> 57 then Some (k - 48)
         else if 97 \<le> k \<and> k \<le> 122 then Some (k - 87)
         else if 65 \<le> k \<and> k \<le> 90 then Some (k - 55)
         else None)"

definition radixDigit :: "nat \<Rightarrow> char \<Rightarrow> bool" where
  "radixDigit R c = (case digitValue c of None \<Rightarrow> False | Some d \<Rightarrow> d < R)"

definition mathInt :: "nat \<Rightarrow> string \<Rightarrow> nat" where
  "mathInt R Z =
     foldl (\<lambda>acc c. case digitValue c of Some d \<Rightarrow> acc * R + d | None \<Rightarrow> acc) 0 Z"

definition parseInt :: "string \<Rightarrow> jsnum" where
  "parseInt inputString =
     (let S = dropWhile StrWhiteSpaceChar inputString;
          (sign, S) = (case S of
                         [] \<Rightarrow> (1 :: int, S)
                       | c # cs \<Rightarrow> if c = CHR ''-'' then (- 1, cs)
                                   else if c = CHR ''+'' then (1, cs) else (1, S));
          hex = (take 2 S = ''0x'' \<or> take 2 S = ''0X'');
          R = (if hex then 16 else 10);
          S = (if hex then drop 2 S else S);
          Z = takeWhile (radixDigit R) S
      in if Z = [] then NaN else round_double (of_int (sign * int (mathInt R Z))))"

section \<open>The CSS value normaliser\<close>

text \<open>
  \<open>parseCSSValue\<close> of \<open>plugin/position-images/position-images.js\<close> and
  \<open>computeCSSValue\<close> of the later revision of the plugin: the same body under two names.
\<close>

definition parseCSSValue :: "string \<Rightarrow> jsnum \<Rightarrow> int" where
  "parseCSSValue srcValue multiplier =
     (if CHR ''%'' \<in> set srcValue
      then SignedRightShift (fmul (fdiv (parseInt srcValue) (num 100)) multiplier) 0
      else SignedRightShift (parseInt srcValue) 0)"

definition computeCSSValue :: "string \<Rightarrow> jsnum \<Rightarrow> int" where
  "computeCSSValue srcValue multiplier =
     (if CHR ''%'' \<in> set srcValue
      then SignedRightShift (fmul (fdiv (parseInt srcValue) (num 100)) multiplier) 0
      else SignedRightShift (parseInt srcValue) 0)"

section \<open>The document\<close>

text \<open>
  The parts of the document \<open>positionImage\<close> reads and writes. A property of an inline
  style is a string, empty when it is not set. \<open>img_height\<close> and \<open>img_width\<close> are the
  attributes \<open>img.height\<close> and \<open>img.width\<close>, \<open>computed\<close> is what
  \<open>window.getComputedStyle(img)\<close> returns, \<open>clientHeight\<close> and \<open>clientWidth\<close> are
  the container's, as measured while its sections are displayed, and \<open>dispatched\<close>
  lists the events dispatched on the image. An assignment to a style property stores
  the string that is assigned (a Number is converted to a string first); whether the
  browser's style parser accepts that string is outside the model.
\<close>

record CSSStyle =
  st_position :: string
  st_display :: string
  st_visibility :: string
  st_height :: string
  st_width :: string
  st_top :: string
  st_left :: string

record ComputedStyle =
  marginTop :: string
  marginBottom :: string
  marginRight :: string
  marginLeft :: string
  maxWidth :: string
  maxHeight :: string

record Image =
  img_height :: nat
  img_width :: nat
  classList :: "string list"
  computed :: ComputedStyle
  style :: CSSStyle
  isPositioned :: bool
  dispatched :: "string list"

record Container =
  clientHeight :: int
  clientWidth :: int
  container_position :: string

record Section =
  section_display :: string

section \<open>positionImage of plugin/position-images/position-images.js\<close>

text \<open>
  The block under \<open>Maximise the dimensions of the image if appropriate\<close>: the two
  branches that compute \<open>(targetWidth, targetHeight)\<close> when the image has the class
  \<open>maximize\<close> or \<open>maximise\<close>.
\<close>

definition maximised :: "Image \<Rightarrow> bool" where
  "maximised img \<longleftrightarrow> ''maximize'' \<in> set (classList img) \<or> ''maximise'' \<in> set (classList img)"

definition maximise :: "ComputedStyle \<Rightarrow> int \<Rightarrow> int \<Rightarrow> int \<Rightarrow> int \<Rightarrow>
    int \<Rightarrow> int \<Rightarrow> int \<Rightarrow> int \<Rightarrow> int \<times> int" where
  "maximise cs originalWidth originalHeight parentWidth parentHeight
       imgMarginTop imgMarginBottom imgMarginRight imgMarginLeft =
     (if fgt (fdiv (num originalWidth) (num parentWidth))
             (fdiv (num originalHeight) (num parentHeight))
      then let targetWidth = parseCSSValue (maxWidth cs) (num parentWidth)
                               - imgMarginRight - imgMarginLeft;
               targetHeight = SignedRightShift
                  (fmul (fdiv (num targetWidth) (num originalWidth)) (num originalHeight)) 0
           in (targetWidth, targetHeight)
      else let targetHeight = parseCSSValue (maxHeight cs) (num parentHeight)
                                - imgMarginBottom - imgMarginTop;
               targetWidth = SignedRightShift
                  (fmul (fdiv (num targetHeight) (num originalHeight)) (num originalWidth)) 0
           in (targetWidth, targetHeight))"

text \<open>
  The body of the loop over \<open>img.classList\<close>: six independent tests of the class
  name, each writing \<open>img.style.top\<close> or \<open>img.style.left\<close>.
\<close>

definition alignClass :: "int \<Rightarrow> int \<Rightarrow> int \<Rightarrow> int \<Rightarrow> int \<Rightarrow> int \<Rightarrow> int \<Rightarrow> int \<Rightarrow>
    CSSStyle \<Rightarrow> string \<Rightarrow> CSSStyle" where
  "alignClass parentWidth parentHeight targetWidth targetHeight
       imgMarginTop imgMarginBottom imgMarginRight imgMarginLeft st thisClass =
     (let st = (if thisClass = ''top'' then st\<lparr>st_top := ''0px''\<rparr> else st);
          st = (if thisClass = ''middle''
                then st\<lparr>st_top := NumberToString (SignedRightShift
                        (num (parentHeight - targetHeight - imgMarginTop - imgMarginBottom)) 1)
                        @ ''px''\<rparr>
                else st);
          st = (if thisClass = ''bottom''
                then st\<lparr>st_top := NumberToString
                        (parentHeight - targetHeight - imgMarginBottom) @ ''px''\<rparr>
                else st);
          st = (if thisClass = ''left'' then st\<lparr>st_left := ''0px''\<rparr> else st);
          st = (if thisClass = ''center'' \<or> thisClass = ''centre''
                then st\<lparr>st_left := NumberToString (SignedRightShift
                        (num (parentWidth - targetWidth - imgMarginLeft - imgMarginRight)) 1)
                        @ ''px''\<rparr>
                else st);
          st = (if thisClass = ''right''
                then st\<lparr>st_left := NumberToString
                        (parentWidth - targetWidth - imgMarginRight) @ ''px''\<rparr>
                else st)
      in st)"

text \<open>
  The function returns nothing. The model returns the three elements it has written to,
  together with the values its variables \<open>targetWidth\<close> and \<open>targetHeight\<close> hold
  when it ends.
\<close>

record Positioned =
  img_of :: Image
  container_of :: Container
  section_of :: Section
  targetWidth_of :: int
  targetHeight_of :: int

definition positionImage :: "Image \<Rightarrow> Container \<Rightarrow> Section \<Rightarrow> Positioned" where
  "positionImage img containerDIV parentSection =
     (let containerDIV = containerDIV\<lparr>container_position := ''relative''\<rparr>;
          img = img\<lparr>style := (style img)\<lparr>st_position := ''absolute''\<rparr>\<rparr>;
          originalHeight = int (img_height img);
          originalWidth = int (img_width img);
          targetHeight = originalHeight;
          targetWidth = originalWidth;
          originalVisibility = section_display parentSection;
          parentSection = parentSection\<lparr>section_display := ''block''\<rparr>;
          parentHeight = clientHeight containerDIV;
          parentWidth = clientWidth containerDIV;
          parentSection = parentSection\<lparr>section_display := originalVisibility\<rparr>;
          imgMarginTop = parseCSSValue (marginTop (computed img)) (num parentHeight);
          imgMarginBottom = parseCSSValue (marginBottom (computed img)) (num parentHeight);
          imgMarginRight = parseCSSValue (marginRight (computed img)) (num parentWidth);
          imgMarginLeft = parseCSSValue (marginLeft (computed img)) (num parentWidth);
          originalVisibility = st_display (style img);
          img = img\<lparr>style := (style img)\<lparr>st_display := ''none''\<rparr>\<rparr>;
          (targetWidth, targetHeight, img) =
            (if maximised img
             then let (targetWidth, targetHeight) =
                        maximise (computed img) originalWidth originalHeight
                          parentWidth parentHeight
                          imgMarginTop imgMarginBottom imgMarginRight imgMarginLeft;
                      img = img\<lparr>style := (style img)
                              \<lparr>st_height := NumberToString targetHeight @ ''px''\<rparr>\<rparr>;
                      img = img\<lparr>style := (style img)
                              \<lparr>st_width := NumberToString targetWidth @ ''px''\<rparr>\<rparr>
                  in (targetWidth, targetHeight, img)
             else (targetWidth, targetHeight, img));
          img = img\<lparr>style := foldl (alignClass parentWidth parentHeight targetWidth targetHeight
                                       imgMarginTop imgMarginBottom imgMarginRight imgMarginLeft)
                                    (style img) (classList img)\<rparr>;
          img = img\<lparr>style := (style img)\<lparr>st_display := originalVisibility\<rparr>\<rparr>;
          img = img\<lparr>isPositioned := True\<rparr>;
          img = img\<lparr>dispatched := dispatched img @ [''imagePositioned'']\<rparr>
      in \<lparr>img_of = img, container_of = containerDIV, section_of = parentSection,
          targetWidth_of = targetWidth, targetHeight_of = targetHeight\<rparr>)"

section \<open>positionImage of the later revision\<close>

text \<open>
  The revision of the plugin in \<open>unnamed/part_000\<close> scales an image that has the class
  \<open>fit-to-container\<close> or is larger than its container, takes the list of all
  enclosing sections, hides the image through \<open>visibility\<close>, and collects the offsets
  in the variables \<open>imgTop\<close> and \<open>imgLeft\<close> before it writes them. Both variables
  start as the Number 0 and receive strings in the loop.
\<close>

datatype jsval = Number int | String string

fun ToString :: "jsval \<Rightarrow> string" where
  "ToString (Number n) = NumberToString n"
| "ToString (String s) = s"

definition fitToContainer :: "ComputedStyle \<Rightarrow> int \<Rightarrow> int \<Rightarrow> int \<Rightarrow> int \<Rightarrow>
    int \<Rightarrow> int \<Rightarrow> int \<Rightarrow> int \<Rightarrow> int \<times> int" where
  "fitToContainer cs originalWidth originalHeight containerWidth containerHeight
       imgMarginTop imgMarginBottom imgMarginRight imgMarginLeft =
     (if fgt (fdiv (num originalWidth) (num containerWidth))
             (fdiv (num originalHeight) (num containerHeight))
      then let targetWidth = computeCSSValue (maxWidth cs) (num containerWidth)
                               - imgMarginRight - imgMarginLeft;
               targetHeight = SignedRightShift
                  (fmul (fdiv (num targetWidth) (num originalWidth)) (num originalHeight)) 0
           in (targetWidth, targetHeight)
      else let targetHeight = computeCSSValue (maxHeight cs) (num containerHeight)
                                - imgMarginBottom - imgMarginTop;
               targetWidth = SignedRightShift
                  (fmul (fdiv (num targetHeight) (num originalHeight)) (num originalWidth)) 0
           in (targetWidth, targetHeight))"

definition alignClass_000 :: "int \<Rightarrow> int \<Rightarrow> int \<Rightarrow> int \<Rightarrow> int \<Rightarrow> int \<Rightarrow> int \<Rightarrow> int \<Rightarrow>
    jsval \<times> jsval \<Rightarrow> string \<Rightarrow> jsval \<times> jsval" where
  "alignClass_000 containerWidth containerHeight targetWidth targetHeight
       imgMarginTop imgMarginBottom imgMarginRight imgMarginLeft offsets thisClass =
     (let (imgTop, imgLeft) = offsets;
          imgTop = (if thisClass = ''top'' then String ''0px'' else imgTop);
          imgTop = (if thisClass = ''middle''
                    then String (NumberToString (SignedRightShift
                      (num (containerHeight - targetHeight - imgMarginTop - imgMarginBottom)) 1)
                      @ ''px'')
                    else imgTop);
          imgTop = (if thisClass = ''bottom''
                    then String (NumberToString
                      (containerHeight - targetHeight - imgMarginBottom) @ ''px'')
                    else imgTop);
          imgLeft = (if thisClass = ''left'' then String ''0px'' else imgLeft);
          imgLeft = (if thisClass = ''center'' \<or> thisClass = ''centre''
                     then String (NumberToString (SignedRightShift
                       (num (containerWidth - targetWidth - imgMarginLeft - imgMarginRight)) 1)
                       @ ''px'')
                     else imgLeft);
          imgLeft = (if thisClass = ''right''
                     then String (NumberToString
                       (containerWidth - targetWidth - imgMarginRight) @ ''px'')
                     else imgLeft)
      in (imgTop, imgLeft))"

record Positioned_000 =
  img_of_000 :: Image
  container_of_000 :: Container
  sections_of_000 :: "Section list"
  targetWidth_of_000 :: int
  targetHeight_of_000 :: int

definition positionImage_000 :: "Image \<Rightarrow> Container \<Rightarrow> Section list \<Rightarrow> Positioned_000" where
  "positionImage_000 img containerDIV parentSections =
     (let containerDIV = containerDIV\<lparr>container_position := ''relative''\<rparr>;
          img = img\<lparr>style := (style img)\<lparr>st_position := ''absolute''\<rparr>\<rparr>;
          originalHeight = int (img_height img);
          originalWidth = int (img_width img);
          targetHeight = originalHeight;
          targetWidth = originalWidth;
          originalVisibilities = map section_display parentSections;
          parentSections = map (\<lambda>s. s\<lparr>section_display := ''block''\<rparr>) parentSections;
          containerHeight = clientHeight containerDIV;
          containerWidth = clientWidth containerDIV;
          parentSections = map2 (\<lambda>s v. s\<lparr>section_display := v\<rparr>)
                             parentSections originalVisibilities;
          imgMarginTop = computeCSSValue (marginTop (computed img)) (num containerHeight);
          imgMarginBottom = computeCSSValue (marginBottom (computed img)) (num containerHeight);
          imgMarginRight = computeCSSValue (marginRight (computed img)) (num containerWidth);
          imgMarginLeft = computeCSSValue (marginLeft (computed img)) (num containerWidth);
          originalVisibility = st_visibility (style img);
          img = img\<lparr>style := (style img)\<lparr>st_visibility := ''hidden''\<rparr>\<rparr>;
          (targetWidth, targetHeight, img) =
            (if ''fit-to-container'' \<in> set (classList img)
                \<or> targetHeight > containerHeight \<or> targetWidth > containerWidth
             then let (targetWidth, targetHeight) =
                        fitToContainer (computed img) originalWidth originalHeight
                          containerWidth containerHeight
                          imgMarginTop imgMarginBottom imgMarginRight imgMarginLeft;
                      img = img\<lparr>style := (style img)
                              \<lparr>st_height := NumberToString targetHeight @ ''px''\<rparr>\<rparr>;
                      img = img\<lparr>style := (style img)
                              \<lparr>st_width := NumberToString targetWidth @ ''px''\<rparr>\<rparr>
                  in (targetWidth, targetHeight, img)
             else (targetWidth, targetHeight, img));
          (imgTop, imgLeft) =
             foldl (alignClass_000 containerWidth containerHeight targetWidth targetHeight
                      imgMarginTop imgMarginBottom imgMarginRight imgMarginLeft)
                   (Number 0, Number 0) (classList img);
          img = img\<lparr>style := (style img)\<lparr>st_top := ToString imgTop\<rparr>\<rparr>;
          img = img\<lparr>style := (style img)\<lparr>st_left := ToString imgLeft\<rparr>\<rparr>;
          img = img\<lparr>style := (style img)\<lparr>st_visibility := originalVisibility\<rparr>\<rparr>;
          img = img\<lparr>isPositioned := True\<rparr>;
          img = img\<lparr>dispatched := dispatched img @ [''imagePositioned'']\<rparr>
      in \<lparr>img_of_000 = img, container_of_000 = containerDIV,
          sections_of_000 = parentSections,
          targetWidth_of_000 = targetWidth, targetHeight_of_000 = targetHeight\<rparr>)"

section \<open>The alignment keywords, as the specification describes them\<close>

text \<open>
  The specification names the keywords of the two axes and says that the last keyword
  of an axis in the class list determines the offset of that axis. \<open>lastKeyword\<close>
  finds that keyword; \<open>topFor\<close> and \<open>leftFor\<close> are the values a single keyword
  stands for, with the operators of the source.
\<close>

definition vertical :: "string \<Rightarrow> bool" where
  "vertical c \<longleftrightarrow> c = ''top'' \<or> c = ''middle'' \<or> c = ''bottom''"

definition horizontal :: "string \<Rightarrow> bool" where
  "horizontal c \<longleftrightarrow> c = ''left'' \<or> c = ''center'' \<or> c = ''centre'' \<or> c = ''right''"

definition lastKeyword :: "(string \<Rightarrow> bool) \<Rightarrow> string list \<Rightarrow> string option" where
  "lastKeyword axis classes = (case filter axis (rev classes) of [] \<Rightarrow> None | k # _ \<Rightarrow> Some k)"

definition topFor :: "string \<Rightarrow> int \<Rightarrow> int \<Rightarrow> int \<Rightarrow> int \<Rightarrow> string" where
  "topFor k containerHeight targetHeight imgMarginTop imgMarginBottom =
     (if k = ''top'' then ''0px''
      else if k = ''middle''
      then NumberToString (SignedRightShift
             (num (containerHeight - targetHeight - imgMarginTop - imgMarginBottom)) 1) @ ''px''
      else NumberToString (containerHeight - targetHeight - imgMarginBottom) @ ''px'')"

definition leftFor :: "string \<Rightarrow> int \<Rightarrow> int \<Rightarrow> int \<Rightarrow> int \<Rightarrow> string" where
  "leftFor k containerWidth targetWidth imgMarginLeft imgMarginRight =
     (if k = ''left'' then ''0px''
      else if k = ''center'' \<or> k = ''centre''
      then NumberToString (SignedRightShift
             (num (containerWidth - targetWidth - imgMarginLeft - imgMarginRight)) 1) @ ''px''
      else NumberToString (containerWidth - targetWidth - imgMarginRight) @ ''px'')"

text \<open>
  The overflow test of the specification: the natural height exceeds the container's
  height, or the natural width exceeds the container's width.
\<close>

definition overflows :: "Image \<Rightarrow> Container \<Rightarrow> bool" where
  "overflows img containerDIV \<longleftrightarrow>
     int (img_height img) > clientHeight containerDIV
       \<or> int (img_width img) > clientWidth containerDIV"

section \<open>Example documents\<close>

text \<open>
  An image of 800 by 300 pixels in a container of 400 by 300 pixels, without margins and
  with both maximal sizes at 100 per cent, inside a section that is not displayed.
\<close>

definition unset_style :: CSSStyle where
  "unset_style = \<lparr>st_position = '''', st_display = '''', st_visibility = '''',
     st_height = '''', st_width = '''', st_top = '''', st_left = ''''\<rparr>"

definition scenario_computed :: ComputedStyle where
  "scenario_computed = \<lparr>marginTop = ''0px'', marginBottom = ''0px'',
     marginRight = ''0px'', marginLeft = ''0px'', maxWidth = ''100%'', maxHeight = ''100%''\<rparr>"

definition scenario_image :: "string list \<Rightarrow> Image" where
  "scenario_image classes = \<lparr>img_height = 300, img_width = 800, classList = classes,
     computed = scenario_computed, style = unset_style, isPositioned = False,
     dispatched = []\<rparr>"

definition scenario_container :: Container where
  "scenario_container = \<lparr>clientHeight = 300, clientWidth = 400, container_position = ''''\<rparr>"

definition hidden_section :: Section where
  "hidden_section = \<lparr>section_display = ''none''\<rparr>"

section \<open>The 32-bit conversions\<close>

lemma int32_range: "- (2 ^ 31) \<le> int32 i \<and> int32 i < 2 ^ 31"
proof -
  have "0 \<le> i mod 2 ^ 32" "i mod 2 ^ 32 < 2 ^ 32" by simp_all
  then show ?thesis unfolding int32_def Let_def by auto
qed

lemma int32_cong: "int32 i mod 2 ^ 32 = i mod 2 ^ 32"
  unfolding int32_def Let_def by (simp add: mod_diff_eq[symmetric] del: mod_diff_eq)

lemma int32_id:
  assumes "- (2 ^ 31) \<le> i" "i < 2 ^ 31"
  shows "int32 i = i"
proof (cases "0 \<le> i")
  case True
  with assms have "i mod 2 ^ 32 = i" by (intro mod_pos_pos_trivial) auto
  with assms show ?thesis by (simp add: int32_def Let_def)
next
  case False
  with assms have "(i + 2 ^ 32) mod 2 ^ 32 = i + 2 ^ 32"
    by (intro mod_pos_pos_trivial) auto
  then have "i mod 2 ^ 32 = i + 2 ^ 32" by simp
  with False assms show ?thesis by (simp add: int32_def Let_def)
qed

lemma ToInt32_range: "- (2 ^ 31) \<le> ToInt32 x \<and> ToInt32 x < 2 ^ 31"
  using int32_range by (cases x) simp_all

lemma shift0: "SignedRightShift x 0 = ToInt32 x"
  by (simp add: SignedRightShift_def)

lemma compute_eq_parse: "computeCSSValue = parseCSSValue"
  by (intro ext) (simp add: computeCSSValue_def parseCSSValue_def)

section \<open>The normaliser on strings without a number\<close>

lemma round_double_not_NaN: "round_double q \<noteq> NaN"
  by (simp add: round_double_def Let_def)

text \<open>
  C4, as the code has it. For every input string without a parseable numeric prefix,
  that is one on which \<open>parseInt\<close> gives \<open>NaN\<close>, and for every multiplier, the
  normaliser returns the integer 0: \<open>>> 0\<close> maps the not-a-number intermediate value
  to 0, and nothing is signalled.
\<close>

theorem unparseable_gives_zero:
  "parseInt srcValue = NaN \<Longrightarrow>
     parseCSSValue srcValue multiplier = 0 \<and> computeCSSValue srcValue multiplier = 0"
  by (simp add: parseCSSValue_def computeCSSValue_def shift0)

theorem unparseable_gives_zero_witness:
  "parseInt ''auto'' = NaN \<and> parseCSSValue ''auto'' (num 200) = 0
     \<and> computeCSSValue ''auto'' (num 200) = 0"
proof -
  have h: "parseInt ''auto'' = NaN" by code_simp
  show ?thesis using h unparseable_gives_zero [OF h, of "num 200"] by simp
qed

text \<open>
  The claim as the specification states it fails on \<open>"auto"\<close>: the string has no
  numeric prefix, and the normaliser yields the pixel value 0, which is a Number and
  not \<open>NaN\<close>.
\<close>

theorem unparseable_not_NaN_counterexample:
  "parseInt ''auto'' = NaN \<and> num (computeCSSValue ''auto'' (num 200)) = Fin 0
     \<and> num (parseCSSValue ''auto'' (num 200)) = Fin 0
     \<and> num (computeCSSValue ''auto'' (num 200)) \<noteq> NaN"
  by code_simp

section \<open>Rounding to binary64\<close>

lemma ilog2_bounds:
  assumes "0 < q"
  shows "2 powi (ilog2 q) \<le> q \<and> q < 2 powi (ilog2 q + 1)"
proof (cases "1 \<le> q")
  case True
  define n where "n = nat \<lfloor>q\<rfloor>"
  have n1: "1 \<le> n" using True by (simp add: n_def le_nat_iff le_floor_iff)
  have nq: "of_nat n \<le> q" "q < of_nat n + 1"
  proof -
    have "0 \<le> \<lfloor>q\<rfloor>" using True by simp
    then have *: "(of_nat n :: rat) = of_int \<lfloor>q\<rfloor>" by (simp add: n_def)
    show "of_nat n \<le> q" unfolding * by simp
    show "q < of_nat n + 1" unfolding * using floor_correct[of q] by linarith
  qed
  define k where "k = floorlog 2 n"
  have b: "2 ^ (k - 1) \<le> n" "n < 2 ^ k"
    using floorlog_bounds[of n 2] n1 by (simp_all add: k_def)
  have k1: "1 \<le> k" using b n1 by (cases k) auto
  have e: "ilog2 q = int k - 1" using True by (simp add: ilog2_def n_def k_def)
  have p1: "(2::rat) powi (int k - 1) = 2 ^ (k - 1)"
    using k1 by (simp add: power_int_def nat_diff_distrib of_nat_diff)
  have p2: "(2::rat) powi (int k - 1 + 1) = 2 ^ k"
    by (simp add: power_int_def)
  have "(2::rat) ^ (k - 1) \<le> of_nat n"
    using b(1) by (metis of_nat_le_iff of_nat_numeral of_nat_power)
  moreover have "of_nat n + 1 \<le> (2::rat) ^ k"
  proof -
    have "n + 1 \<le> 2 ^ k" using b(2) by simp
    then have "(of_nat (n + 1)::rat) \<le> of_nat (2 ^ k)" by (simp only: of_nat_le_iff)
    then show ?thesis by simp
  qed
  ultimately show ?thesis using nq unfolding e p1 p2 by linarith
next
  case False
  define r where "r = 1 / q"
  have r1: "1 < r" using False assms by (simp add: r_def)
  define n where "n = nat (\<lceil>r\<rceil> - 1)"
  have c2: "2 \<le> \<lceil>r\<rceil>" using r1 by (simp add: le_ceiling_iff)
  have n1: "1 \<le> n" using c2 unfolding n_def by linarith
  have nr: "of_nat n < r" "r \<le> of_nat n + 1"
  proof -
    have "int n = \<lceil>r\<rceil> - 1" using c2 unfolding n_def by linarith
    then have *: "(of_nat n :: rat) = of_int \<lceil>r\<rceil> - 1"
      by (metis of_int_diff of_int_of_nat_eq of_int_1)
    show "of_nat n < r" unfolding * using ceiling_correct[of r] by linarith
    show "r \<le> of_nat n + 1" unfolding * using ceiling_correct[of r] by linarith
  qed
  define k where "k = floorlog 2 n"
  have b: "2 ^ (k - 1) \<le> n" "n < 2 ^ k"
    using floorlog_bounds[of n 2] n1 by (simp_all add: k_def)
  have k1: "1 \<le> k" using b n1 by (cases k) auto
  have e: "ilog2 q = - int k" using False by (simp add: ilog2_def n_def k_def r_def)
  have p1: "(2::rat) powi (- int k) = 1 / 2 ^ k"
    by (simp add: power_int_def field_simps)
  have p2: "(2::rat) powi (- int k + 1) = 1 / 2 ^ (k - 1)"
    using k1 by (simp add: power_int_def nat_diff_distrib field_simps) 
  have u: "r \<le> 2 ^ k"
  proof -
    have "n + 1 \<le> 2 ^ k" using b(2) by simp
    then have "(of_nat (n + 1)::rat) \<le> of_nat (2 ^ k)" by (simp only: of_nat_le_iff)
    then have "(of_nat n::rat) + 1 \<le> 2 ^ k" by simp
    then show ?thesis using nr by linarith
  qed
  have l: "2 ^ (k - 1) < r"
  proof -
    have "(of_nat (2 ^ (k - 1))::rat) \<le> of_nat n" using b(1) by (simp only: of_nat_le_iff)
    then have "(2::rat) ^ (k - 1) \<le> of_nat n" by (simp only: of_nat_power of_nat_numeral)
    then show ?thesis using nr by linarith
  qed
  have qr: "q = 1 / r" using assms by (simp add: r_def)
  have rpos: "0 < r" using r1 by simp
  have "1 / 2 ^ k \<le> 1 / r" using u rpos by (simp add: frac_le)
  moreover have "1 / r < 1 / 2 ^ (k - 1)" using l by (simp add: frac_less2)
  ultimately have "1 / 2 ^ k \<le> q \<and> q < 1 / 2 ^ (k - 1)" by (simp add: qr)
  then show ?thesis unfolding e p1 p2 .
qed

lemma ilog2_unique:
  assumes "0 < q" "2 powi e \<le> q" "q < 2 powi (e + 1)"
  shows "ilog2 q = e"
proof -
  note b = ilog2_bounds[OF assms(1)]
  have "\<not> ilog2 q + 1 \<le> e"
  proof
    assume "ilog2 q + 1 \<le> e"
    then have "(2::rat) powi (ilog2 q + 1) \<le> 2 powi e" by (intro power_int_increasing) auto
    with b assms show False by linarith
  qed
  moreover have "\<not> e + 1 \<le> ilog2 q"
  proof
    assume "e + 1 \<le> ilog2 q"
    then have "(2::rat) powi (e + 1) \<le> 2 powi (ilog2 q)" by (intro power_int_increasing) auto
    with b assms show False by linarith
  qed
  ultimately show ?thesis by linarith
qed

lemma round_half_even_error: "\<bar>of_int (round_half_even x) - x\<bar> \<le> 1 / 2"
proof -
  define d where "d = x - of_int \<lfloor>x\<rfloor>"
  have d: "0 \<le> d" "d < 1" unfolding d_def by linarith+
  have x: "x = of_int \<lfloor>x\<rfloor> + d" by (simp add: d_def)
  consider "round_half_even x = \<lfloor>x\<rfloor>" "d \<le> 1 / 2"
    | "round_half_even x = \<lfloor>x\<rfloor> + 1" "1 / 2 \<le> d"
    unfolding round_half_even_def Let_def d_def[symmetric]
    by (cases "d < 1 / 2"; cases "1 / 2 < d"; cases "even \<lfloor>x\<rfloor>") auto
  then show ?thesis
  proof cases
    case 1
    have "of_int (round_half_even x) - x = - d" unfolding 1(1) using x by linarith
    then show ?thesis using d 1(2) by simp
  next
    case 2
    have "of_int (round_half_even x) - x = 1 - d" unfolding 2(1) using x by simp
    then show ?thesis using d 2(2) by simp
  qed
qed

lemma round_half_even_int: "round_half_even (of_int n) = n"
  by (simp add: round_half_even_def)

lemma round_double_small_int:
  assumes "\<bar>n\<bar> \<le> 2 ^ 53"
  shows "round_double (of_int n) = Fin (of_int n)"
proof (cases "n = 0")
  case True
  then show ?thesis by (simp add: round_double_def)
next
  case False
  define q :: rat where "q = \<bar>of_int n\<bar>"
  have q0: "0 < q" using False by (simp add: q_def)
  have q1: "1 \<le> q"
  proof -
    have "1 \<le> \<bar>n\<bar>" using False by simp
    then have "(of_int 1 :: rat) \<le> of_int \<bar>n\<bar>" by (simp only: of_int_le_iff)
    then show ?thesis by (simp add: q_def)
  qed
  define e where "e = ilog2 q"
  note b = ilog2_bounds[OF q0, folded e_def]
  have e0: "0 \<le> e"
  proof (rule ccontr)
    assume "\<not> 0 \<le> e"
    then have "e + 1 \<le> 0" by simp
    then have "(2::rat) powi (e + 1) \<le> 2 powi 0" by (intro power_int_increasing) auto
    with b q1 show False by simp
  qed
  have q53: "q \<le> 2 powi 53"
  proof -
    have "(of_int \<bar>n\<bar> :: rat) \<le> of_int (2 ^ 53)" using assms by (simp only: of_int_le_iff)
    then show ?thesis by (simp add: q_def)
  qed
  have e53: "e \<le> 53"
  proof (rule ccontr)
    assume "\<not> e \<le> 53"
    then have "54 \<le> e" by simp
    then have "(2::rat) powi 54 \<le> 2 powi e" by (intro power_int_increasing) auto
    moreover have "(2::rat) powi 53 < 2 powi 54" by (intro power_int_strict_increasing) auto
    ultimately show False using b q53 by linarith
  qed
  have m: "max e (- 1022) = e" using e0 by simp
  have ex: "\<exists>k::int. q / 2 powi (e - 52) = of_int k"
  proof (cases "e \<le> 52")
    case True
    have "q / 2 powi (e - 52) = q * 2 powi (52 - e)"
      by (simp add: power_int_diff field_simps)
    also have "\<dots> = of_int \<bar>n\<bar> * of_int (2 ^ nat (52 - e))"
      using True by (simp add: q_def power_int_def)
    also have "\<dots> = of_int (\<bar>n\<bar> * 2 ^ nat (52 - e))" by simp
    finally show ?thesis by blast
  next
    case False
    with e53 have e: "e = 53" by simp
    have "2 powi 53 \<le> q" using b e by simp
    with q53 have "q = 2 powi 53" by simp
    then have "q / 2 powi (e - 52) = of_int (2 ^ 52)" by (simp add: e)
    then show ?thesis by blast
  qed
  then obtain k :: int where k: "q / 2 powi (e - 52) = of_int k" by blast
  have r: "of_int k * 2 powi (e - 52) = q"
    using k by (metis nonzero_divide_eq_eq power_int_eq_0_iff zero_neq_numeral)
  have "round_double (of_int n) = Fin (sgn (of_int n) * q)"
    using False e53
    by (simp add: round_double_def Let_def q_def[symmetric] e_def[symmetric] m k
         round_half_even_int r)
  also have "sgn (of_int n :: rat) * q = of_int n"
    unfolding q_def by (simp add: sgn_mult_abs)
  finally show ?thesis .
qed

lemma round_double_error:
  assumes "2 powi (- 1022) \<le> \<bar>q\<bar>" "\<bar>q\<bar> < 2 powi 1023"
  shows "\<exists>r. round_double q = Fin r \<and> \<bar>r - q\<bar> \<le> \<bar>q\<bar> / 2 ^ 53"
proof -
  have q0: "0 < \<bar>q\<bar>" using assms(1)
    by (meson less_le_trans zero_less_numeral zero_less_power_int)
  then have qn: "q \<noteq> 0" by simp
  define e where "e = ilog2 \<bar>q\<bar>"
  note b = ilog2_bounds[OF q0, folded e_def]
  have el: "- 1022 \<le> e"
  proof (rule ccontr)
    assume "\<not> - 1022 \<le> e"
    then have "e + 1 \<le> - 1022" by simp
    then have "(2::rat) powi (e + 1) \<le> 2 powi (- 1022)" by (intro power_int_increasing) auto
    with b assms show False by linarith
  qed
  have eu: "e \<le> 1022"
  proof (rule ccontr)
    assume "\<not> e \<le> 1022"
    then have "1023 \<le> e" by simp
    then have "(2::rat) powi 1023 \<le> 2 powi e" by (intro power_int_increasing) auto
    with b assms show False by linarith
  qed
  have m: "max e (- 1022) = e" using el by simp
  define u :: rat where "u = 2 powi (e - 52)"
  have u0: "0 < u" by (simp add: u_def)
  define n where "n = round_half_even (\<bar>q\<bar> / u)"
  have "\<bar>of_int n - \<bar>q\<bar> / u\<bar> \<le> 1 / 2" unfolding n_def by (rule round_half_even_error)
  then have "\<bar>of_int n - \<bar>q\<bar> / u\<bar> * u \<le> 1 / 2 * u" using u0 by (simp only: mult_le_cancel_right_pos)
  moreover have "\<bar>of_int n - \<bar>q\<bar> / u\<bar> * u = \<bar>of_int n * u - \<bar>q\<bar>\<bar>"
  proof -
    have "\<bar>of_int n - \<bar>q\<bar> / u\<bar> * u = \<bar>(of_int n - \<bar>q\<bar> / u) * u\<bar>"
      using u0 by (simp add: abs_mult)
    also have "(of_int n - \<bar>q\<bar> / u) * u = of_int n * u - \<bar>q\<bar>"
      using u0 by (simp add: field_simps)
    finally show ?thesis .
  qed
  ultimately have err: "\<bar>of_int n * u - \<bar>q\<bar>\<bar> \<le> u / 2" by simp
  have "u / 2 = 2 powi e / 2 ^ 53"
    by (simp add: u_def power_int_diff)
  also have "\<dots> \<le> \<bar>q\<bar> / 2 ^ 53" using b by (simp add: divide_right_mono)
  finally have u2: "u / 2 \<le> \<bar>q\<bar> / 2 ^ 53" .
  have rd: "round_double q = Fin (sgn q * (of_int n * u))"
    using qn eu by (simp add: round_double_def Let_def e_def[symmetric] m u_def[symmetric] n_def[symmetric])
  have "sgn q * (of_int n * u - \<bar>q\<bar>) = sgn q * (of_int n * u) - q"
    by (simp add: right_diff_distrib sgn_mult_abs)
  then have "\<bar>sgn q * (of_int n * u) - q\<bar> = \<bar>sgn q * (of_int n * u - \<bar>q\<bar>)\<bar>"
    by simp
  also have "\<dots> = \<bar>of_int n * u - \<bar>q\<bar>\<bar>"
    using qn by (simp add: abs_mult abs_sgn_eq)
  finally have "\<bar>sgn q * (of_int n * u) - q\<bar> \<le> \<bar>q\<bar> / 2 ^ 53" using err u2 by linarith
  with rd show ?thesis by blast
qed

lemma tiny_le: "(2::rat) powi (- 1022) \<le> 1 / 2 ^ 65"
proof -
  have "(2::rat) powi (- 1022) \<le> 2 powi (- 65)" by (intro power_int_increasing) auto
  then show ?thesis by (simp add: power_int_minus_divide)
qed

lemma huge_ge: "(2::rat) ^ 53 < 2 powi 1023"
proof -
  have "(2::rat) powi 53 < 2 powi 1023" by (intro power_int_strict_increasing) auto
  then show ?thesis by simp
qed

lemma scaled_error:
  fixes a b c :: int
  assumes a: "a \<noteq> 0" and c: "c \<noteq> 0" and b: "0 < b" "b \<le> 2 ^ 64"
    and ac: "\<bar>a * c\<bar> \<le> 2 ^ 51"
  shows "\<exists>y. fmul (fdiv (num a) (num b)) (num c) = Fin y
           \<and> \<bar>y - of_int (a * c) / of_int b\<bar> < 1 / of_int b"
proof -
  define A B C :: rat where "A = of_int a" and "B = of_int b" and "C = of_int c"
  have B0: "0 < B" using b by (simp add: B_def)
  have B64: "B \<le> 2 ^ 64"
  proof -
    have "(of_int b :: rat) \<le> of_int (2 ^ 64)" using b by (simp only: of_int_le_iff)
    then show ?thesis by (simp add: B_def)
  qed
  have A1: "1 \<le> \<bar>A\<bar>"
  proof -
    have "1 \<le> \<bar>a\<bar>" using a by simp
    then have "(of_int 1 :: rat) \<le> of_int \<bar>a\<bar>" by (simp only: of_int_le_iff)
    then show ?thesis by (simp add: A_def)
  qed
  have C1: "1 \<le> \<bar>C\<bar>"
  proof -
    have "1 \<le> \<bar>c\<bar>" using c by simp
    then have "(of_int 1 :: rat) \<le> of_int \<bar>c\<bar>" by (simp only: of_int_le_iff)
    then show ?thesis by (simp add: C_def)
  qed
  have AC: "\<bar>A\<bar> * \<bar>C\<bar> \<le> 2 ^ 51"
  proof -
    have "(of_int \<bar>a * c\<bar> :: rat) \<le> of_int (2 ^ 51)" using ac by (simp only: of_int_le_iff)
    then show ?thesis by (simp add: A_def C_def abs_mult)
  qed
  have A51: "\<bar>A\<bar> \<le> 2 ^ 51"
  proof -
    have "\<bar>A\<bar> * 1 \<le> \<bar>A\<bar> * \<bar>C\<bar>" using C1 by (intro mult_left_mono) auto
    with AC show ?thesis by simp
  qed
  define x1 where "x1 = A / B"
  have x1l: "1 / 2 ^ 64 \<le> \<bar>x1\<bar>"
  proof -
    have "1 / 2 ^ 64 \<le> 1 / B" using B0 B64 by (simp add: frac_le)
    also have "\<dots> \<le> \<bar>A\<bar> / B" using A1 B0 by (simp add: divide_right_mono)
    finally show ?thesis using B0 by (simp add: x1_def)
  qed
  have B1: "1 \<le> B"
  proof -
    have "1 \<le> b" using b by simp
    then have "(of_int 1 :: rat) \<le> of_int b" by (simp only: of_int_le_iff)
    then show ?thesis by (simp add: B_def)
  qed
  have x1u: "\<bar>x1\<bar> \<le> \<bar>A\<bar>"
  proof -
    have "\<bar>A\<bar> / B \<le> \<bar>A\<bar> / 1" using B1 by (intro divide_left_mono) auto
    then show ?thesis using B0 by (simp add: x1_def)
  qed
  have n1: "2 powi (- 1022) \<le> \<bar>x1\<bar>" using tiny_le x1l by simp
  have n2: "\<bar>x1\<bar> < 2 powi 1023" using huge_ge x1u A51 by simp
  have bn: "B \<noteq> 0" using B0 by simp
  have "fdiv (num a) (num b) = round_double x1"
    using bn by (simp add: num_def x1_def A_def B_def)
  with round_double_error[OF n1 n2] obtain d where
    d: "fdiv (num a) (num b) = Fin d" and de: "\<bar>d - x1\<bar> \<le> \<bar>x1\<bar> / 2 ^ 53"
    by auto
  have "\<bar>x1\<bar> / 2 ^ 53 \<le> \<bar>x1\<bar> / 2" by (rule divide_left_mono) auto
  with de have de2: "\<bar>d - x1\<bar> \<le> \<bar>x1\<bar> / 2" by linarith
  have dl: "\<bar>x1\<bar> / 2 \<le> \<bar>d\<bar>" using de2 by linarith
  have du: "\<bar>d\<bar> \<le> 2 * \<bar>x1\<bar>" using de2 by linarith
  define x2 where "x2 = d * C"
  define x where "x = x1 * C"
  have x2x: "\<bar>x2 - x\<bar> \<le> \<bar>x\<bar> / 2 ^ 53"
  proof -
    have "\<bar>x2 - x\<bar> = \<bar>d - x1\<bar> * \<bar>C\<bar>" by (simp add: x2_def x_def abs_mult left_diff_distrib flip: abs_mult)
    also have "\<dots> \<le> \<bar>x1\<bar> / 2 ^ 53 * \<bar>C\<bar>" using de by (intro mult_right_mono) auto
    finally show ?thesis by (simp add: x_def abs_mult)
  qed
  have xu: "\<bar>x\<bar> \<le> 2 ^ 51 / B"
  proof -
    have "\<bar>x\<bar> = \<bar>A\<bar> * \<bar>C\<bar> / B" using B0 by (simp add: x_def x1_def abs_mult)
    also have "\<dots> \<le> 2 ^ 51 / B" using AC B0 by (simp add: divide_right_mono)
    finally show ?thesis .
  qed
  have xu1: "\<bar>x\<bar> \<le> 2 ^ 51"
  proof -
    have "2 ^ 51 / B \<le> 2 ^ 51 / 1" using B1 by (intro divide_left_mono) auto
    with xu show ?thesis by simp
  qed
  have "\<bar>x\<bar> / 2 ^ 53 \<le> \<bar>x\<bar> / 1" by (rule divide_left_mono) auto
  with x2x have x2u: "\<bar>x2\<bar> \<le> 2 * \<bar>x\<bar>" by linarith
  have x2l: "1 / 2 ^ 65 \<le> \<bar>x2\<bar>"
  proof -
    have "1 / 2 ^ 65 \<le> \<bar>x1\<bar> / 2" using x1l by simp
    also have "\<dots> \<le> \<bar>d\<bar> * 1" using dl by simp
    also have "\<dots> \<le> \<bar>d\<bar> * \<bar>C\<bar>" using C1 by (intro mult_left_mono) auto
    finally show ?thesis by (simp add: x2_def abs_mult)
  qed
  have m1: "2 powi (- 1022) \<le> \<bar>x2\<bar>" using tiny_le x2l by simp
  have m2: "\<bar>x2\<bar> < 2 powi 1023" using huge_ge x2u xu1 by simp
  have "fmul (Fin d) (num c) = round_double x2" by (simp add: num_def x2_def C_def)
  with round_double_error[OF m1 m2] obtain y where
    y: "fmul (Fin d) (num c) = Fin y" and ye: "\<bar>y - x2\<bar> \<le> \<bar>x2\<bar> / 2 ^ 53"
    by auto
  have "\<bar>y - x\<bar> \<le> \<bar>y - x2\<bar> + \<bar>x2 - x\<bar>" by simp
  also have "\<dots> \<le> 2 * \<bar>x\<bar> / 2 ^ 53 + \<bar>x\<bar> / 2 ^ 53"
    using ye x2u x2x by (simp add: field_simps)
  also have "\<dots> = 3 * \<bar>x\<bar> / 2 ^ 53" by simp
  also have "\<dots> \<le> 3 * (2 ^ 51 / B) / 2 ^ 53" using xu by (simp add: divide_right_mono)
  also have "\<dots> < 1 / B" using B0 by (simp add: field_simps)
  finally have "\<bar>y - x\<bar> < 1 / B" .
  moreover have "x = of_int (a * c) / of_int b"
    by (simp add: x_def x1_def A_def B_def C_def)
  ultimately show ?thesis using d y by (auto simp: B_def)
qed

lemma toward_zero_minus: "toward_zero (- y) = - toward_zero y"
  by (cases "y = 0") (auto simp: toward_zero_def ceiling_minus floor_minus)

lemma toward_zero_of_int: "toward_zero (of_int n) = n"
  by (simp add: toward_zero_def)

lemma toward_zero_nonneg_div:
  "0 \<le> p \<Longrightarrow> 0 < b \<Longrightarrow> toward_zero (of_int p / of_int b) = p div b"
  by (simp add: toward_zero_def floor_divide_of_int_eq)

lemma trunc_near_pos:
  fixes p b :: int and y :: rat
  assumes p: "0 \<le> p" and b: "0 < b"
    and y: "\<bar>y - of_int p / of_int b\<bar> < 1 / of_int b"
  shows "toward_zero y = p div b \<or> (b dvd p \<and> 0 < p \<and> toward_zero y = p div b - 1)"
proof -
  define B :: rat where "B = of_int b"
  define k where "k = p div b"
  define r where "r = p mod b"
  have B1: "1 \<le> B"
  proof -
    have "1 \<le> b" using b by simp
    then have "(of_int 1 :: rat) \<le> of_int b" by (simp only: of_int_le_iff)
    then show ?thesis by (simp add: B_def)
  qed
  then have B0: "0 < B" by simp
  have iB: "1 / B \<le> 1" using B1 by simp
  have k0: "0 \<le> k" using p b by (simp add: k_def pos_imp_zdiv_nonneg_iff)
  have pk: "p = k * b + r" by (simp add: k_def r_def)
  have x: "of_int p / B = of_int k + of_int r / B"
    using B0 by (simp add: pk B_def field_simps)
  have yl: "of_int k + of_int r / B - 1 / B < y" and yu: "y < of_int k + of_int r / B + 1 / B"
    using y unfolding B_def[symmetric] x by linarith+
  show ?thesis
  proof (cases "r = 0")
    case False
    have "0 \<le> r" "r < b" using b by (simp_all add: r_def)
    with False have r1: "1 \<le> r" "r + 1 \<le> b" by simp_all
    have "(of_int 1 :: rat) \<le> of_int r" using r1(1) by (simp only: of_int_le_iff)
    then have rl: "1 / B \<le> of_int r / B" using B0 by (simp add: divide_right_mono)
    have "(of_int (r + 1) :: rat) \<le> of_int b" using r1(2) by (simp only: of_int_le_iff)
    then have "(of_int r + 1) / B \<le> B / B" unfolding B_def
      using B0[unfolded B_def] by (intro divide_right_mono) auto
    then have ru: "of_int r / B + 1 / B \<le> 1" using B0 by (simp add: add_divide_distrib)
    have "of_int k < y" "y < of_int k + 1" using yl yu rl ru by linarith+
    then have f: "\<lfloor>y\<rfloor> = k" by (intro floor_unique) auto
    have "(0::rat) \<le> of_int k" using k0 by simp
    with \<open>of_int k < y\<close> have "0 \<le> y" by linarith
    then show ?thesis using f by (simp add: toward_zero_def k_def)
  next
    case True
    then have dv: "b dvd p" by (simp add: r_def dvd_eq_mod_eq_0)
    have yl': "of_int k - 1 < y" and yu': "y < of_int k + 1"
      using yl yu iB True by simp_all
    show ?thesis
    proof (cases "p = 0")
      case True
      then have "k = 0" by (simp add: k_def)
      with yl' yu' have "- 1 < y" "y < 1" by simp_all
      then have "toward_zero y = 0"
        unfolding toward_zero_def by (auto intro: floor_unique ceiling_unique)
      then show ?thesis using True by simp
    next
      case False
      with p have p0: "0 < p" by simp
      have "k \<noteq> 0" using False pk True by auto
      with k0 have k1: "1 \<le> k" by simp
      then have "(of_int 1 :: rat) \<le> of_int k" by (simp only: of_int_le_iff)
      then have y0: "0 < y" using yl' by simp
      show ?thesis
      proof (cases "of_int k \<le> y")
        case True
        then have "\<lfloor>y\<rfloor> = k" using yu' by (intro floor_unique) auto
        then show ?thesis using y0 by (simp add: toward_zero_def k_def)
      next
        case False
        then have "\<lfloor>y\<rfloor> = k - 1" using yl' by (intro floor_unique) auto
        then show ?thesis using y0 dv p0 by (simp add: toward_zero_def k_def)
      qed
    qed
  qed
qed

lemma trunc_near:
  fixes p b :: int and y :: rat
  assumes b: "0 < b" and y: "\<bar>y - of_int p / of_int b\<bar> < 1 / of_int b"
  shows "toward_zero y = toward_zero (of_int p / of_int b)
           \<or> (b dvd p \<and> p \<noteq> 0 \<and> toward_zero y = p div b - sgn p)"
proof (cases "0 \<le> p")
  case True
  from trunc_near_pos[OF True b y] show ?thesis
    using True b by (auto simp: toward_zero_nonneg_div)
next
  case False
  then have np: "0 \<le> - p" by simp
  have "\<bar>(- y) - of_int (- p) / of_int b\<bar> = \<bar>y - of_int p / of_int b\<bar>"
    by (simp add: abs_minus_commute)
  with y have y': "\<bar>(- y) - of_int (- p) / of_int b\<bar> < 1 / of_int b" by simp
  have tz: "toward_zero (of_int p / of_int b) = - ((- p) div b)"
  proof -
    have "toward_zero (- (of_int (- p) / of_int b)) = - ((- p) div b)"
      unfolding toward_zero_minus using np b by (simp only: toward_zero_nonneg_div)
    then show ?thesis by simp
  qed
  from trunc_near_pos[OF np b y'] show ?thesis
  proof
    assume "toward_zero (- y) = - p div b"
    then show ?thesis by (simp add: toward_zero_minus tz)
  next
    assume h: "b dvd - p \<and> 0 < - p \<and> toward_zero (- y) = - p div b - 1"
    then have dv: "b dvd p" by simp
    then have "(- p) div b = - (p div b)" by (simp add: dvd_neg_div)
    with h have "toward_zero y = p div b + 1" by (simp add: toward_zero_minus)
    then show ?thesis using dv False by simp
  qed
qed

lemma toward_zero_range:
  fixes M :: int
  assumes "\<bar>x\<bar> < of_int M"
  shows "- M < toward_zero x \<and> toward_zero x < M"
proof -
  have "(0::rat) < of_int M" using assms by linarith
  then have M: "0 < M" by simp
  show ?thesis
  proof (cases "0 \<le> x")
    case True
    then have t: "toward_zero x = \<lfloor>x\<rfloor>" by (simp add: toward_zero_def)
    have "0 \<le> \<lfloor>x\<rfloor>" using True by simp
    moreover have "\<lfloor>x\<rfloor> < M" using assms True by (simp add: floor_less_iff)
    ultimately show ?thesis unfolding t using M by linarith
  next
    case False
    then have t: "toward_zero x = \<lceil>x\<rceil>" by (simp add: toward_zero_def)
    have "\<lceil>x\<rceil> \<le> 0" using False by (simp add: ceiling_le_iff)
    moreover have "- M < \<lceil>x\<rceil>" using assms False by (simp add: less_ceiling_iff)
    ultimately show ?thesis unfolding t using M by linarith
  qed
qed

lemma scaled_zero:
  assumes "a = 0 \<or> c = 0" "b \<noteq> 0"
  shows "ToInt32 (fmul (fdiv (num a) (num b)) (num c)) = 0"
proof (cases "a = 0")
  case True
  then show ?thesis using assms
    by (simp add: num_def round_double_def toward_zero_def int32_def)
next
  case False
  with assms have c: "c = 0" by simp
  show ?thesis
    by (cases "fdiv (num a) (num b)")
       (simp_all add: c num_def round_double_def toward_zero_def int32_def)
qed

lemma scaled_trunc:
  fixes a b c :: int
  assumes b: "0 < b" "b \<le> 2 ^ 64"
    and ac: "\<bar>a * c\<bar> \<le> 2 ^ 51" and r: "\<bar>a * c\<bar> < 2 ^ 31 * b"
  shows "ToInt32 (fmul (fdiv (num a) (num b)) (num c)) = toward_zero (of_int (a * c) / of_int b)
     \<or> (b dvd a * c \<and> a * c \<noteq> 0
          \<and> ToInt32 (fmul (fdiv (num a) (num b)) (num c)) = a * c div b - sgn (a * c))"
proof (cases "a = 0 \<or> c = 0")
  case True
  then have "a * c = 0" by auto
  then have "(of_int (a * c) :: rat) / of_int b = 0" by (simp only: of_int_0 div_0)
  then have "toward_zero (of_int (a * c) / of_int b) = 0" by (simp only: toward_zero_def) simp
  moreover have "ToInt32 (fmul (fdiv (num a) (num b)) (num c)) = 0"
    using scaled_zero[OF True, of b] b by simp
  ultimately show ?thesis by simp
next
  case False
  then have a: "a \<noteq> 0" and c: "c \<noteq> 0" by simp_all
  from scaled_error[OF a c b ac] obtain y where
    y: "fmul (fdiv (num a) (num b)) (num c) = Fin y"
    and ye: "\<bar>y - of_int (a * c) / of_int b\<bar> < 1 / of_int b" by blast
  define x :: rat where "x = of_int (a * c) / of_int b"
  have xr: "\<bar>x\<bar> < of_int (2 ^ 31)"
  proof -
    have "(of_int \<bar>a * c\<bar> :: rat) < of_int (2 ^ 31 * b)" using r by (simp only: of_int_less_iff)
    then have "\<bar>of_int (a * c)\<bar> < (2 ^ 31 :: rat) * of_int b" by simp
    then have "\<bar>of_int (a * c)\<bar> / of_int b < (2 ^ 31 :: rat)"
      using b by (simp add: pos_divide_less_eq)
    then show ?thesis using b by (simp add: x_def)
  qed
  note tr = toward_zero_range[OF xr]
  from trunc_near[OF b(1) ye] show ?thesis
  proof
    assume h: "toward_zero y = toward_zero (of_int (a * c) / of_int b)"
    then have "int32 (toward_zero y) = toward_zero y"
      using tr by (intro int32_id) (simp_all add: x_def)
    then show ?thesis using h by (simp add: y)
  next
    assume h: "b dvd a * c \<and> a * c \<noteq> 0 \<and> toward_zero y = a * c div b - sgn (a * c)"
    then obtain k where k: "a * c = b * k" by (auto simp: dvd_def)
    have xk: "x = of_int k" using b by (simp add: x_def k)
    have kr: "- (2 ^ 31) < k" "k < 2 ^ 31" using tr by (simp_all add: xk toward_zero_of_int)
    have k0: "k \<noteq> 0" using h k by auto
    have d: "a * c div b = k" using b by (simp add: k)
    have s: "sgn (a * c) = sgn k" using b by (simp add: k sgn_mult)
    have "- (2 ^ 31) \<le> k - sgn k \<and> k - sgn k < 2 ^ 31"
      using kr k0 by (cases "0 < k") (simp_all add: sgn_if)
    then have "int32 (toward_zero y) = toward_zero y"
      using h d s by (intro int32_id) simp_all
    then show ?thesis using h by (simp add: y)
  qed
qed

section \<open>The alignment loop and the closed form of positionImage\<close>

lemma lastKeyword_Nil: "lastKeyword P [] = None"
  by (simp add: lastKeyword_def)

lemma lastKeyword_snoc:
  "lastKeyword P (cs @ [c]) = (if P c then Some c else lastKeyword P cs)"
  by (simp add: lastKeyword_def)

lemma alignClass_top:
  "st_top (alignClass W H tw th mt mb mr ml st c) =
     (if vertical c then topFor c H th mt mb else st_top st)"
  by (simp add: alignClass_def Let_def vertical_def topFor_def)

lemma alignClass_left:
  "st_left (alignClass W H tw th mt mb mr ml st c) =
     (if horizontal c then leftFor c W tw ml mr else st_left st)"
  by (simp add: alignClass_def Let_def horizontal_def leftFor_def)

lemma alignClass_other:
  "st_position (alignClass W H tw th mt mb mr ml st c) = st_position st"
  "st_display (alignClass W H tw th mt mb mr ml st c) = st_display st"
  "st_visibility (alignClass W H tw th mt mb mr ml st c) = st_visibility st"
  "st_height (alignClass W H tw th mt mb mr ml st c) = st_height st"
  "st_width (alignClass W H tw th mt mb mr ml st c) = st_width st"
  by (simp_all add: alignClass_def Let_def)

lemma foldl_alignClass:
  "foldl (alignClass W H tw th mt mb mr ml) st cs =
     st\<lparr>st_top := (case lastKeyword vertical cs of None \<Rightarrow> st_top st
                     | Some k \<Rightarrow> topFor k H th mt mb),
        st_left := (case lastKeyword horizontal cs of None \<Rightarrow> st_left st
                     | Some k \<Rightarrow> leftFor k W tw ml mr)\<rparr>"
proof (induction cs rule: rev_induct)
  case Nil
  show ?case by (simp add: lastKeyword_Nil)
next
  case (snoc c cs)
  show ?case
    by (rule CSSStyle.equality)
       (simp_all add: snoc lastKeyword_snoc alignClass_top alignClass_left alignClass_other)
qed

lemma alignClass_000_eq:
  "alignClass_000 W H tw th mt mb mr ml (t, l) c =
     (if vertical c then String (topFor c H th mt mb) else t,
      if horizontal c then String (leftFor c W tw ml mr) else l)"
  by (simp add: alignClass_000_def Let_def vertical_def horizontal_def topFor_def leftFor_def)

lemma foldl_alignClass_000:
  "foldl (alignClass_000 W H tw th mt mb mr ml) (t, l) cs =
     (case lastKeyword vertical cs of None \<Rightarrow> t | Some k \<Rightarrow> String (topFor k H th mt mb),
      case lastKeyword horizontal cs of None \<Rightarrow> l | Some k \<Rightarrow> String (leftFor k W tw ml mr))"
proof (induction cs rule: rev_induct)
  case Nil
  show ?case by (simp add: lastKeyword_Nil)
next
  case (snoc c cs)
  show ?case by (simp add: snoc lastKeyword_snoc alignClass_000_eq)
qed

lemma maximised_update [simp]:
  "maximised (img\<lparr>style := st\<rparr>) = maximised img"
  by (simp add: maximised_def)

lemma positionImage_closed:
  "positionImage img c s =
     (let H = clientHeight c; W = clientWidth c;
          mt = parseCSSValue (marginTop (computed img)) (num H);
          mb = parseCSSValue (marginBottom (computed img)) (num H);
          mr = parseCSSValue (marginRight (computed img)) (num W);
          ml = parseCSSValue (marginLeft (computed img)) (num W);
          tt = (if maximised img
                then maximise (computed img) (int (img_width img)) (int (img_height img))
                       W H mt mb mr ml
                else (int (img_width img), int (img_height img)));
          tw = fst tt; th = snd tt
      in \<lparr>img_of = img\<lparr>style := (style img)
              \<lparr>st_position := ''absolute'',
               st_height := (if maximised img then NumberToString th @ ''px''
                             else st_height (style img)),
               st_width := (if maximised img then NumberToString tw @ ''px''
                            else st_width (style img)),
               st_top := (case lastKeyword vertical (classList img) of
                            None \<Rightarrow> st_top (style img) | Some k \<Rightarrow> topFor k H th mt mb),
               st_left := (case lastKeyword horizontal (classList img) of
                            None \<Rightarrow> st_left (style img) | Some k \<Rightarrow> leftFor k W tw ml mr)\<rparr>,
             isPositioned := True,
             dispatched := dispatched img @ [''imagePositioned'']\<rparr>,
          container_of = c\<lparr>container_position := ''relative''\<rparr>,
          section_of = s,
          targetWidth_of = tw, targetHeight_of = th\<rparr>)"
  by (cases "maximised img")
     (simp_all add: positionImage_def Let_def foldl_alignClass split: prod.splits option.splits)

lemma restore_sections:
  "map2 (\<lambda>s v. s\<lparr>section_display := v\<rparr>)
        (map (\<lambda>s. s\<lparr>section_display := ''block''\<rparr>) ss) (map section_display ss) = ss"
  by (induction ss) simp_all

lemma positionImage_000_closed:
  "positionImage_000 img c ss =
     (let H = clientHeight c; W = clientWidth c;
          mt = computeCSSValue (marginTop (computed img)) (num H);
          mb = computeCSSValue (marginBottom (computed img)) (num H);
          mr = computeCSSValue (marginRight (computed img)) (num W);
          ml = computeCSSValue (marginLeft (computed img)) (num W);
          scale = (''fit-to-container'' \<in> set (classList img)
                     \<or> int (img_height img) > H \<or> int (img_width img) > W);
          tt = (if scale
                then fitToContainer (computed img) (int (img_width img)) (int (img_height img))
                       W H mt mb mr ml
                else (int (img_width img), int (img_height img)));
          tw = fst tt; th = snd tt
      in \<lparr>img_of_000 = img\<lparr>style := (style img)
              \<lparr>st_position := ''absolute'',
               st_height := (if scale then NumberToString th @ ''px''
                             else st_height (style img)),
               st_width := (if scale then NumberToString tw @ ''px''
                            else st_width (style img)),
               st_top := (case lastKeyword vertical (classList img) of
                            None \<Rightarrow> ''0'' | Some k \<Rightarrow> topFor k H th mt mb),
               st_left := (case lastKeyword horizontal (classList img) of
                            None \<Rightarrow> ''0'' | Some k \<Rightarrow> leftFor k W tw ml mr)\<rparr>,
             isPositioned := True,
             dispatched := dispatched img @ [''imagePositioned'']\<rparr>,
          container_of_000 = c\<lparr>container_position := ''relative''\<rparr>,
          sections_of_000 = ss,
          targetWidth_of_000 = tw, targetHeight_of_000 = th\<rparr>)"
proof -
  have z: "NumberToString 0 = ''0''" by code_simp
  show ?thesis
    by (cases "''fit-to-container'' \<in> set (classList img)
                     \<or> int (img_height img) > clientHeight c \<or> int (img_width img) > clientWidth c")
     (simp_all add: positionImage_000_def Let_def foldl_alignClass_000 restore_sections z
        split: prod.splits option.splits)
qed

section \<open>What positionImage reads and writes\<close>

lemma positionImage_inputs:
  "classList (img_of (positionImage img c s)) = classList img"
  "computed (img_of (positionImage img c s)) = computed img"
  "img_height (img_of (positionImage img c s)) = img_height img"
  "img_width (img_of (positionImage img c s)) = img_width img"
  "clientHeight (container_of (positionImage img c s)) = clientHeight c"
  "clientWidth (container_of (positionImage img c s)) = clientWidth c"
  by (simp_all add: positionImage_closed Let_def)

lemma positionImage_outputs:
  "isPositioned (img_of (positionImage img c s))"
  "dispatched (img_of (positionImage img c s)) = dispatched img @ [''imagePositioned'']"
  "container_of (positionImage img c s) = c\<lparr>container_position := ''relative''\<rparr>"
  "section_of (positionImage img c s) = s"
  by (simp_all add: positionImage_closed Let_def)

lemma positionImage_targets_cong:
  assumes "classList img' = classList img" "computed img' = computed img"
    "img_height img' = img_height img" "img_width img' = img_width img"
    "clientHeight c' = clientHeight c" "clientWidth c' = clientWidth c"
  shows "targetWidth_of (positionImage img' c' s') = targetWidth_of (positionImage img c s)"
    and "targetHeight_of (positionImage img' c' s') = targetHeight_of (positionImage img c s)"
  using assms by (simp_all add: positionImage_closed Let_def maximised_def)

lemma positionImage_style:
  "st_position (style (img_of (positionImage img c s))) = ''absolute''"
  "st_display (style (img_of (positionImage img c s))) = st_display (style img)"
  "st_visibility (style (img_of (positionImage img c s))) = st_visibility (style img)"
  "st_height (style (img_of (positionImage img c s))) =
     (if maximised img then NumberToString (targetHeight_of (positionImage img c s)) @ ''px''
      else st_height (style img))"
  "st_width (style (img_of (positionImage img c s))) =
     (if maximised img then NumberToString (targetWidth_of (positionImage img c s)) @ ''px''
      else st_width (style img))"
  "st_top (style (img_of (positionImage img c s))) =
     (case lastKeyword vertical (classList img) of
        None \<Rightarrow> st_top (style img)
      | Some k \<Rightarrow> topFor k (clientHeight c) (targetHeight_of (positionImage img c s))
          (parseCSSValue (marginTop (computed img)) (num (clientHeight c)))
          (parseCSSValue (marginBottom (computed img)) (num (clientHeight c))))"
  "st_left (style (img_of (positionImage img c s))) =
     (case lastKeyword horizontal (classList img) of
        None \<Rightarrow> st_left (style img)
      | Some k \<Rightarrow> leftFor k (clientWidth c) (targetWidth_of (positionImage img c s))
          (parseCSSValue (marginLeft (computed img)) (num (clientWidth c)))
          (parseCSSValue (marginRight (computed img)) (num (clientWidth c))))"
  by (simp_all add: positionImage_closed Let_def split: option.splits)

lemma positionImage_twice_style:
  "style (img_of (positionImage (img_of (positionImage img c s))
       (container_of (positionImage img c s)) (section_of (positionImage img c s)))) =
   style (img_of (positionImage img c s))"
proof -
  define r1 where "r1 = positionImage img c s"
  define r2 where "r2 = positionImage (img_of r1) (container_of r1) (section_of r1)"
  note i1 = positionImage_inputs[of img c s, folded r1_def]
  note s1 = positionImage_style[of img c s, folded r1_def]
  note s2 = positionImage_style[of "img_of r1" "container_of r1" "section_of r1",
      folded r2_def]
  have t: "targetWidth_of r2 = targetWidth_of r1" "targetHeight_of r2 = targetHeight_of r1"
    unfolding r1_def r2_def
    by (rule positionImage_targets_cong; simp add: positionImage_inputs)+
  have m: "maximised (img_of r1) = maximised img"
    by (simp add: maximised_def i1)
  have "style (img_of r2) = style (img_of r1)"
  proof (rule CSSStyle.equality)
    show "st_position (style (img_of r2)) = st_position (style (img_of r1))"
      by (simp add: s1 s2)
    show "st_display (style (img_of r2)) = st_display (style (img_of r1))"
      by (simp add: s1 s2)
    show "st_visibility (style (img_of r2)) = st_visibility (style (img_of r1))"
      by (simp add: s1 s2)
    show "st_height (style (img_of r2)) = st_height (style (img_of r1))"
      by (simp add: s2(4) s1(4) t m)
    show "st_width (style (img_of r2)) = st_width (style (img_of r1))"
      by (simp add: s2(5) s1(5) t m)
    show "st_top (style (img_of r2)) = st_top (style (img_of r1))"
      by (simp add: s2(6) s1(6) t i1 split: option.splits)
    show "st_left (style (img_of r2)) = st_left (style (img_of r1))"
      by (simp add: s2(7) s1(7) t i1 split: option.splits)
    show "CSSStyle.more (style (img_of r2)) = CSSStyle.more (style (img_of r1))"
      by simp
  qed
  then show ?thesis by (simp add: r1_def r2_def)
qed

lemma positionImage_000_inputs:
  "classList (img_of_000 (positionImage_000 img c ss)) = classList img"
  "computed (img_of_000 (positionImage_000 img c ss)) = computed img"
  "img_height (img_of_000 (positionImage_000 img c ss)) = img_height img"
  "img_width (img_of_000 (positionImage_000 img c ss)) = img_width img"
  "clientHeight (container_of_000 (positionImage_000 img c ss)) = clientHeight c"
  "clientWidth (container_of_000 (positionImage_000 img c ss)) = clientWidth c"
  by (simp_all add: positionImage_000_closed Let_def)

lemma positionImage_000_outputs:
  "isPositioned (img_of_000 (positionImage_000 img c ss))"
  "dispatched (img_of_000 (positionImage_000 img c ss)) = dispatched img @ [''imagePositioned'']"
  "container_of_000 (positionImage_000 img c ss) = c\<lparr>container_position := ''relative''\<rparr>"
  "sections_of_000 (positionImage_000 img c ss) = ss"
  by (simp_all add: positionImage_000_closed Let_def)

lemma positionImage_000_targets_cong:
  assumes "classList img' = classList img" "computed img' = computed img"
    "img_height img' = img_height img" "img_width img' = img_width img"
    "clientHeight c' = clientHeight c" "clientWidth c' = clientWidth c"
  shows "targetWidth_of_000 (positionImage_000 img' c' ss') = targetWidth_of_000 (positionImage_000 img c ss)"
    and "targetHeight_of_000 (positionImage_000 img' c' ss') = targetHeight_of_000 (positionImage_000 img c ss)"
  using assms by (simp_all add: positionImage_000_closed Let_def overflows_def)

lemma positionImage_000_style:
  "st_position (style (img_of_000 (positionImage_000 img c ss))) = ''absolute''"
  "st_display (style (img_of_000 (positionImage_000 img c ss))) = st_display (style img)"
  "st_visibility (style (img_of_000 (positionImage_000 img c ss))) = st_visibility (style img)"
  "st_height (style (img_of_000 (positionImage_000 img c ss))) =
     (if (''fit-to-container'' \<in> set (classList img) \<or> overflows img c) then NumberToString (targetHeight_of_000 (positionImage_000 img c ss)) @ ''px''
      else st_height (style img))"
  "st_width (style (img_of_000 (positionImage_000 img c ss))) =
     (if (''fit-to-container'' \<in> set (classList img) \<or> overflows img c) then NumberToString (targetWidth_of_000 (positionImage_000 img c ss)) @ ''px''
      else st_width (style img))"
  "st_top (style (img_of_000 (positionImage_000 img c ss))) =
     (case lastKeyword vertical (classList img) of
        None \<Rightarrow> ''0''
      | Some k \<Rightarrow> topFor k (clientHeight c) (targetHeight_of_000 (positionImage_000 img c ss))
          (computeCSSValue (marginTop (computed img)) (num (clientHeight c)))
          (computeCSSValue (marginBottom (computed img)) (num (clientHeight c))))"
  "st_left (style (img_of_000 (positionImage_000 img c ss))) =
     (case lastKeyword horizontal (classList img) of
        None \<Rightarrow> ''0''
      | Some k \<Rightarrow> leftFor k (clientWidth c) (targetWidth_of_000 (positionImage_000 img c ss))
          (computeCSSValue (marginLeft (computed img)) (num (clientWidth c)))
          (computeCSSValue (marginRight (computed img)) (num (clientWidth c))))"
  by (simp_all add: positionImage_000_closed Let_def overflows_def split: option.splits)

lemma positionImage_000_twice_style:
  "style (img_of_000 (positionImage_000 (img_of_000 (positionImage_000 img c ss))
       (container_of_000 (positionImage_000 img c ss)) (sections_of_000 (positionImage_000 img c ss)))) =
   style (img_of_000 (positionImage_000 img c ss))"
proof -
  define r1 where "r1 = positionImage_000 img c ss"
  define r2 where "r2 = positionImage_000 (img_of_000 r1) (container_of_000 r1) (sections_of_000 r1)"
  note i1 = positionImage_000_inputs[of img c ss, folded r1_def]
  note s1 = positionImage_000_style[of img c ss, folded r1_def]
  note s2 = positionImage_000_style[of "img_of_000 r1" "container_of_000 r1" "sections_of_000 r1",
      folded r2_def]
  have t: "targetWidth_of_000 r2 = targetWidth_of_000 r1" "targetHeight_of_000 r2 = targetHeight_of_000 r1"
    unfolding r1_def r2_def
    by (rule positionImage_000_targets_cong; simp add: positionImage_000_inputs)+
  have m: "(''fit-to-container'' \<in> set (classList (img_of_000 r1))
              \<or> overflows (img_of_000 r1) (container_of_000 r1))
           = (''fit-to-container'' \<in> set (classList img) \<or> overflows img c)"
    by (simp add: overflows_def i1)
  have "style (img_of_000 r2) = style (img_of_000 r1)"
  proof (rule CSSStyle.equality)
    show "st_position (style (img_of_000 r2)) = st_position (style (img_of_000 r1))"
      by (simp add: s1 s2)
    show "st_display (style (img_of_000 r2)) = st_display (style (img_of_000 r1))"
      by (simp add: s1 s2)
    show "st_visibility (style (img_of_000 r2)) = st_visibility (style (img_of_000 r1))"
      by (simp add: s1 s2)
    show "st_height (style (img_of_000 r2)) = st_height (style (img_of_000 r1))"
      by (simp add: s2(4) s1(4) t m)
    show "st_width (style (img_of_000 r2)) = st_width (style (img_of_000 r1))"
      by (simp add: s2(5) s1(5) t m)
    show "st_top (style (img_of_000 r2)) = st_top (style (img_of_000 r1))"
      by (simp add: s2(6) s1(6) t i1 split: option.splits)
    show "st_left (style (img_of_000 r2)) = st_left (style (img_of_000 r1))"
      by (simp add: s2(7) s1(7) t i1 split: option.splits)
    show "CSSStyle.more (style (img_of_000 r2)) = CSSStyle.more (style (img_of_000 r1))"
      by simp
  qed
  then show ?thesis by (simp add: r1_def r2_def)
qed

lemma positionImage_twice_targets:
  "targetWidth_of (positionImage (img_of (positionImage img c s))
       (container_of (positionImage img c s)) (section_of (positionImage img c s))) =
   targetWidth_of (positionImage img c s)"
  "targetHeight_of (positionImage (img_of (positionImage img c s))
       (container_of (positionImage img c s)) (section_of (positionImage img c s))) =
   targetHeight_of (positionImage img c s)"
  by (rule positionImage_targets_cong; simp add: positionImage_inputs)+

lemma positionImage_000_twice_targets:
  "targetWidth_of_000 (positionImage_000 (img_of_000 (positionImage_000 img c ss))
       (container_of_000 (positionImage_000 img c ss))
       (sections_of_000 (positionImage_000 img c ss))) =
   targetWidth_of_000 (positionImage_000 img c ss)"
  "targetHeight_of_000 (positionImage_000 (img_of_000 (positionImage_000 img c ss))
       (container_of_000 (positionImage_000 img c ss))
       (sections_of_000 (positionImage_000 img c ss))) =
   targetHeight_of_000 (positionImage_000 img c ss)"
  by (rule positionImage_000_targets_cong; simp add: positionImage_000_inputs)+

lemma lastKeyword_last:
  "axis k \<Longrightarrow> \<forall>c\<in>set after. \<not> axis c \<Longrightarrow> lastKeyword axis (before @ k # after) = Some k"
  by (simp add: lastKeyword_def filter_empty_conv)

section \<open>Evaluation on numerals and literals\<close>

lemma round_double_0: "round_double 0 = Fin 0"
  by (simp add: round_double_def)

lemma round_double_1: "round_double 1 = Fin 1"
  using round_double_small_int[of 1] by simp

lemma round_double_minus_1: "round_double (- 1) = Fin (- 1)"
  using round_double_small_int[of "- 1"] by simp

lemma ceiling_minus_1: "\<lceil>- 1 :: rat\<rceil> = - 1"
  using ceiling_of_int[of "- 1", where ?'a = rat] by simp

lemma floor_rat_numeral:
  "\<lfloor>numeral a / numeral b :: rat\<rfloor> = numeral a div numeral b"
  using floor_divide_of_int_eq[of "numeral a" "numeral b", where ?'a = rat] by simp

lemma ceiling_rat_neg_numeral:
  "\<lceil>- (numeral a / numeral b) :: rat\<rceil> = - (numeral a div numeral b)"
  by (simp add: ceiling_minus floor_rat_numeral)

lemma round_double_numeral:
  "(numeral k :: int) \<le> 2 ^ 53 \<Longrightarrow> round_double (numeral k) = Fin (numeral k)"
  using round_double_small_int[of "numeral k"] by simp

lemma round_double_neg_numeral:
  "(numeral k :: int) \<le> 2 ^ 53 \<Longrightarrow> round_double (- numeral k) = Fin (- numeral k)"
  using round_double_small_int[of "- numeral k"] by simp

lemma round_double_half: "round_double (1 / 2) = Fin (1 / 2)"
  by code_simp

lemmas number_eval = num_def round_double_0 round_double_1 round_double_minus_1
  ceiling_minus_1 floor_rat_numeral ceiling_rat_neg_numeral round_double_numeral
  round_double_neg_numeral round_double_half SignedRightShift_def toward_zero_def int32_def

lemmas parseInt_eval = parseInt_def Let_def StrWhiteSpaceChar_def radixDigit_def
  digitValue_def mathInt_def

lemma digit_chars:
  "char_of (48::nat) = CHR ''0''" "char_of (49::nat) = CHR ''1''"
  "char_of (50::nat) = CHR ''2''" "char_of (51::nat) = CHR ''3''"
  "char_of (52::nat) = CHR ''4''" "char_of (53::nat) = CHR ''5''"
  "char_of (54::nat) = CHR ''6''" "char_of (55::nat) = CHR ''7''"
  "char_of (56::nat) = CHR ''8''" "char_of (57::nat) = CHR ''9''"
  by code_simp+

lemmas string_eval = digit_chars NumberToString_def decimal.simps lastKeyword_def vertical_def
  horizontal_def topFor_def leftFor_def

lemmas scenario_eval = scenario_image_def scenario_computed_def scenario_container_def
  hidden_section_def unset_style_def

lemma scenario_margins:
  "parseCSSValue ''0px'' m = 0" "computeCSSValue ''0px'' m = 0"
  by (simp_all add: parseCSSValue_def computeCSSValue_def parseInt_eval number_eval)

lemma scenario_maximise:
  "maximise scenario_computed 800 300 400 300 0 0 0 0 = (400, 150)"
  by (simp add: maximise_def scenario_computed_def parseCSSValue_def parseInt_eval number_eval)

lemma scenario_fitToContainer:
  "fitToContainer scenario_computed 800 300 400 300 0 0 0 0 = (400, 150)"
  by (simp add: fitToContainer_def scenario_computed_def computeCSSValue_def parseInt_eval
        number_eval)


section \<open>The scaling step\<close>

text \<open>
  C2. Container 400 by 300 without margins, natural image 800 by 300, the fit flag set,
  both maximal sizes 100 per cent, classes \<open>center\<close> and \<open>middle\<close>: the width ratio
  \<open>800 / 400\<close> exceeds the height ratio \<open>300 / 300\<close>, so the width branch is taken,
  and both revisions of \<open>positionImage\<close> end with target width 400, target height 150,
  left offset 0 and top offset 75.
\<close>

theorem scenario_400_by_300:
  "fgt (fdiv (num 800) (num 400)) (fdiv (num 300) (num 300))
   \<and> (let r = positionImage
                (scenario_image [''align'', ''maximize'', ''center'', ''middle''])
                scenario_container hidden_section
      in targetWidth_of r = 400 \<and> targetHeight_of r = 150
         \<and> st_left (style (img_of r)) = ''0px'' \<and> st_top (style (img_of r)) = ''75px''
         \<and> st_width (style (img_of r)) = ''400px''
         \<and> st_height (style (img_of r)) = ''150px'')
   \<and> (let r = positionImage_000
                (scenario_image [''align'', ''fit-to-container'', ''center'', ''middle''])
                scenario_container [hidden_section]
      in targetWidth_of_000 r = 400 \<and> targetHeight_of_000 r = 150
         \<and> st_left (style (img_of_000 r)) = ''0px''
         \<and> st_top (style (img_of_000 r)) = ''75px''
         \<and> st_width (style (img_of_000 r)) = ''400px''
         \<and> st_height (style (img_of_000 r)) = ''150px'')"
  by (simp add: positionImage_closed positionImage_000_closed Let_def maximised_def
       scenario_eval scenario_margins scenario_maximise[unfolded scenario_computed_def]
       scenario_fitToContainer[unfolded scenario_computed_def] string_eval number_eval)

text \<open>
  C1, as the code has it. The later revision scales exactly when the image has the
  class \<open>fit-to-container\<close> or overflows its container; the revision of
  \<open>plugin/position-images/position-images.js\<close> scales exactly when the image has the
  class \<open>maximize\<close> or \<open>maximise\<close>, whether it overflows or not. In both, an image
  that is not scaled keeps its natural dimensions as target dimensions, and its
  \<open>height\<close> and \<open>width\<close> style properties are not written.
\<close>

theorem scaling_condition:
  "(let r = positionImage_000 img c ss;
        H = clientHeight c; W = clientWidth c;
        mt = computeCSSValue (marginTop (computed img)) (num H);
        mb = computeCSSValue (marginBottom (computed img)) (num H);
        mr = computeCSSValue (marginRight (computed img)) (num W);
        ml = computeCSSValue (marginLeft (computed img)) (num W)
    in if ''fit-to-container'' \<in> set (classList img) \<or> overflows img c
       then (targetWidth_of_000 r, targetHeight_of_000 r) =
              fitToContainer (computed img) (int (img_width img)) (int (img_height img))
                W H mt mb mr ml
            \<and> st_width (style (img_of_000 r)) = NumberToString (targetWidth_of_000 r) @ ''px''
            \<and> st_height (style (img_of_000 r)) = NumberToString (targetHeight_of_000 r) @ ''px''
       else targetWidth_of_000 r = int (img_width img)
            \<and> targetHeight_of_000 r = int (img_height img)
            \<and> st_width (style (img_of_000 r)) = st_width (style img)
            \<and> st_height (style (img_of_000 r)) = st_height (style img))
   \<and> (let r = positionImage img c s;
        H = clientHeight c; W = clientWidth c;
        mt = parseCSSValue (marginTop (computed img)) (num H);
        mb = parseCSSValue (marginBottom (computed img)) (num H);
        mr = parseCSSValue (marginRight (computed img)) (num W);
        ml = parseCSSValue (marginLeft (computed img)) (num W)
    in if maximised img
       then (targetWidth_of r, targetHeight_of r) =
              maximise (computed img) (int (img_width img)) (int (img_height img))
                W H mt mb mr ml
            \<and> st_width (style (img_of r)) = NumberToString (targetWidth_of r) @ ''px''
            \<and> st_height (style (img_of r)) = NumberToString (targetHeight_of r) @ ''px''
       else targetWidth_of r = int (img_width img)
            \<and> targetHeight_of r = int (img_height img)
            \<and> st_width (style (img_of r)) = st_width (style img)
            \<and> st_height (style (img_of r)) = st_height (style img))"
  by (simp add: positionImage_closed positionImage_000_closed Let_def overflows_def)

theorem scaling_condition_witness:
  "overflows (scenario_image [''align'']) scenario_container
   \<and> targetWidth_of_000 (positionImage_000 (scenario_image [''align''])
        scenario_container [hidden_section]) = 400
   \<and> targetHeight_of_000 (positionImage_000 (scenario_image [''align''])
        scenario_container [hidden_section]) = 150
   \<and> targetWidth_of (positionImage (scenario_image [''align'', ''maximise''])
        scenario_container hidden_section) = 400
   \<and> targetHeight_of (positionImage (scenario_image [''align'', ''maximise''])
        scenario_container hidden_section) = 150"
proof -
  have o: "overflows (scenario_image [''align'']) scenario_container"
    by (simp add: overflows_def scenario_eval)
  have m: "maximised (scenario_image [''align'', ''maximise''])"
    by (simp add: maximised_def scenario_eval)
  show ?thesis
    using o m
      scaling_condition [of "scenario_image [''align'']" scenario_container "[hidden_section]"
        hidden_section]
      scaling_condition [of "scenario_image [''align'', ''maximise'']" scenario_container
        "[hidden_section]" hidden_section]
    by (simp add: Let_def scenario_eval scenario_margins
          scenario_maximise[unfolded scenario_computed_def]
          scenario_fitToContainer[unfolded scenario_computed_def])
qed

text \<open>
  The claim as the specification states it fails on the revision of
  \<open>plugin/position-images/position-images.js\<close>: an image of 800 by 300 pixels without
  the class \<open>maximize\<close> overflows a container of 400 by 300 pixels and is not scaled.
\<close>

theorem overflow_without_scaling_counterexample:
  "overflows (scenario_image [''align'']) scenario_container
   \<and> targetWidth_of (positionImage (scenario_image [''align''])
        scenario_container hidden_section) = 800
   \<and> targetHeight_of (positionImage (scenario_image [''align''])
        scenario_container hidden_section) = 300
   \<and> st_width (style (img_of (positionImage (scenario_image [''align''])
        scenario_container hidden_section))) = ''''
   \<and> st_height (style (img_of (positionImage (scenario_image [''align''])
        scenario_container hidden_section))) = ''''"
  by (simp add: positionImage_closed Let_def maximised_def overflows_def scenario_eval)

section \<open>Repeated invocation\<close>

text \<open>
  C9. Invoking \<open>positionImage\<close> again on the document it has produced, with the same
  image dimensions, container dimensions, computed style and classes, gives the same
  target dimensions, the same inline style (size and offsets included) and the same
  positioned flag; the container and the sections are as after the first invocation.
  The second invocation only dispatches its event once more.
\<close>

theorem reinvocation_same_layout:
  "(let r1 = positionImage img c s;
        r2 = positionImage (img_of r1) (container_of r1) (section_of r1)
    in targetWidth_of r2 = targetWidth_of r1 \<and> targetHeight_of r2 = targetHeight_of r1
       \<and> style (img_of r2) = style (img_of r1)
       \<and> isPositioned (img_of r1) \<and> isPositioned (img_of r2)
       \<and> container_of r2 = container_of r1 \<and> section_of r2 = section_of r1
       \<and> dispatched (img_of r2) = dispatched (img_of r1) @ [''imagePositioned''])
   \<and> (let r1 = positionImage_000 img c ss;
        r2 = positionImage_000 (img_of_000 r1) (container_of_000 r1) (sections_of_000 r1)
    in targetWidth_of_000 r2 = targetWidth_of_000 r1
       \<and> targetHeight_of_000 r2 = targetHeight_of_000 r1
       \<and> style (img_of_000 r2) = style (img_of_000 r1)
       \<and> isPositioned (img_of_000 r1) \<and> isPositioned (img_of_000 r2)
       \<and> container_of_000 r2 = container_of_000 r1
       \<and> sections_of_000 r2 = sections_of_000 r1
       \<and> dispatched (img_of_000 r2) = dispatched (img_of_000 r1) @ [''imagePositioned''])"
  unfolding Let_def
  by (intro conjI positionImage_twice_targets positionImage_000_twice_targets
        positionImage_twice_style positionImage_000_twice_style)
     (simp_all add: positionImage_outputs positionImage_000_outputs)

section \<open>The order of the alignment keywords\<close>

lemma positionImage_targets:
  "(targetWidth_of (positionImage img c s), targetHeight_of (positionImage img c s)) =
     (if maximised img
      then maximise (computed img) (int (img_width img)) (int (img_height img))
             (clientWidth c) (clientHeight c)
             (parseCSSValue (marginTop (computed img)) (num (clientHeight c)))
             (parseCSSValue (marginBottom (computed img)) (num (clientHeight c)))
             (parseCSSValue (marginRight (computed img)) (num (clientWidth c)))
             (parseCSSValue (marginLeft (computed img)) (num (clientWidth c)))
      else (int (img_width img), int (img_height img)))"
  by (simp add: positionImage_closed Let_def)

lemma positionImage_000_targets:
  "(targetWidth_of_000 (positionImage_000 img c ss),
    targetHeight_of_000 (positionImage_000 img c ss)) =
     (if ''fit-to-container'' \<in> set (classList img) \<or> overflows img c
      then fitToContainer (computed img) (int (img_width img)) (int (img_height img))
             (clientWidth c) (clientHeight c)
             (computeCSSValue (marginTop (computed img)) (num (clientHeight c)))
             (computeCSSValue (marginBottom (computed img)) (num (clientHeight c)))
             (computeCSSValue (marginRight (computed img)) (num (clientWidth c)))
             (computeCSSValue (marginLeft (computed img)) (num (clientWidth c)))
      else (int (img_width img), int (img_height img)))"
  by (simp add: positionImage_000_closed Let_def overflows_def)

text \<open>
  C5. The class list is read in order and every keyword writes its offset when it is
  met, so the offset of an axis is the one of the last keyword of that axis in the list:
  if the list is \<open>before @ k # after\<close> and no keyword of the axis of \<open>k\<close> occurs in
  \<open>after\<close>, the offset of that axis is the value \<open>k\<close> stands for. For the list
  \<open>[top, bottom]\<close> the top offset is the container height minus the target height
  minus the bottom margin. This holds for both revisions.
\<close>

theorem last_keyword_wins:
  "(classList img = before @ k # after \<and> vertical k \<and> (\<forall>c\<in>set after. \<not> vertical c) \<longrightarrow>
      st_top (style (img_of (positionImage img c s))) =
        topFor k (clientHeight c) (targetHeight_of (positionImage img c s))
          (parseCSSValue (marginTop (computed img)) (num (clientHeight c)))
          (parseCSSValue (marginBottom (computed img)) (num (clientHeight c)))
      \<and> st_top (style (img_of_000 (positionImage_000 img c ss))) =
        topFor k (clientHeight c) (targetHeight_of_000 (positionImage_000 img c ss))
          (computeCSSValue (marginTop (computed img)) (num (clientHeight c)))
          (computeCSSValue (marginBottom (computed img)) (num (clientHeight c))))
   \<and> (classList img = before @ k # after \<and> horizontal k
        \<and> (\<forall>c\<in>set after. \<not> horizontal c) \<longrightarrow>
      st_left (style (img_of (positionImage img c s))) =
        leftFor k (clientWidth c) (targetWidth_of (positionImage img c s))
          (parseCSSValue (marginLeft (computed img)) (num (clientWidth c)))
          (parseCSSValue (marginRight (computed img)) (num (clientWidth c)))
      \<and> st_left (style (img_of_000 (positionImage_000 img c ss))) =
        leftFor k (clientWidth c) (targetWidth_of_000 (positionImage_000 img c ss))
          (computeCSSValue (marginLeft (computed img)) (num (clientWidth c)))
          (computeCSSValue (marginRight (computed img)) (num (clientWidth c))))
   \<and> (classList img = [''top'', ''bottom''] \<longrightarrow>
      st_top (style (img_of (positionImage img c s))) =
        NumberToString (clientHeight c - targetHeight_of (positionImage img c s)
          - parseCSSValue (marginBottom (computed img)) (num (clientHeight c))) @ ''px''
      \<and> st_top (style (img_of_000 (positionImage_000 img c ss))) =
        NumberToString (clientHeight c - targetHeight_of_000 (positionImage_000 img c ss)
          - computeCSSValue (marginBottom (computed img)) (num (clientHeight c))) @ ''px'')"
proof (intro conjI impI)
  assume h: "classList img = before @ k # after \<and> vertical k
    \<and> (\<forall>c\<in>set after. \<not> vertical c)"
  then have l: "lastKeyword vertical (classList img) = Some k"
    by (simp add: lastKeyword_last)
  show "st_top (style (img_of (positionImage img c s))) =
        topFor k (clientHeight c) (targetHeight_of (positionImage img c s))
          (parseCSSValue (marginTop (computed img)) (num (clientHeight c)))
          (parseCSSValue (marginBottom (computed img)) (num (clientHeight c)))"
    by (simp add: positionImage_style l)
  show "st_top (style (img_of_000 (positionImage_000 img c ss))) =
        topFor k (clientHeight c) (targetHeight_of_000 (positionImage_000 img c ss))
          (computeCSSValue (marginTop (computed img)) (num (clientHeight c)))
          (computeCSSValue (marginBottom (computed img)) (num (clientHeight c)))"
    by (simp add: positionImage_000_style l)
next
  assume h: "classList img = before @ k # after \<and> horizontal k
    \<and> (\<forall>c\<in>set after. \<not> horizontal c)"
  then have l: "lastKeyword horizontal (classList img) = Some k"
    by (simp add: lastKeyword_last)
  show "st_left (style (img_of (positionImage img c s))) =
        leftFor k (clientWidth c) (targetWidth_of (positionImage img c s))
          (parseCSSValue (marginLeft (computed img)) (num (clientWidth c)))
          (parseCSSValue (marginRight (computed img)) (num (clientWidth c)))"
    by (simp add: positionImage_style l)
  show "st_left (style (img_of_000 (positionImage_000 img c ss))) =
        leftFor k (clientWidth c) (targetWidth_of_000 (positionImage_000 img c ss))
          (computeCSSValue (marginLeft (computed img)) (num (clientWidth c)))
          (computeCSSValue (marginRight (computed img)) (num (clientWidth c)))"
    by (simp add: positionImage_000_style l)
next
  assume h: "classList img = [''top'', ''bottom'']"
  then have l: "lastKeyword vertical (classList img) = Some ''bottom''"
    by (simp add: lastKeyword_def vertical_def)
  show "st_top (style (img_of (positionImage img c s))) =
        NumberToString (clientHeight c - targetHeight_of (positionImage img c s)
          - parseCSSValue (marginBottom (computed img)) (num (clientHeight c))) @ ''px''"
    by (simp add: positionImage_style l topFor_def)
  show "st_top (style (img_of_000 (positionImage_000 img c ss))) =
        NumberToString (clientHeight c - targetHeight_of_000 (positionImage_000 img c ss)
          - computeCSSValue (marginBottom (computed img)) (num (clientHeight c))) @ ''px''"
    by (simp add: positionImage_000_style l topFor_def)
qed

lemma scenario_container_simps:
  "clientHeight scenario_container = 300" "clientWidth scenario_container = 400"
  by (simp_all add: scenario_container_def)

theorem last_keyword_wins_witness:
  "st_top (style (img_of (positionImage
       ((scenario_image [''top'', ''bottom''])\<lparr>img_height := 100, img_width := 200\<rparr>)
       scenario_container hidden_section))) = ''200px''
   \<and> st_top (style (img_of_000 (positionImage_000
       ((scenario_image [''top'', ''bottom''])\<lparr>img_height := 100, img_width := 200\<rparr>)
       scenario_container [hidden_section]))) = ''200px''
   \<and> st_left (style (img_of (positionImage
       ((scenario_image [''right'', ''top'', ''left'', ''middle''])
          \<lparr>img_height := 100, img_width := 200\<rparr>)
       scenario_container hidden_section))) = ''0px''
   \<and> st_top (style (img_of (positionImage
       ((scenario_image [''right'', ''top'', ''left'', ''middle''])
          \<lparr>img_height := 100, img_width := 200\<rparr>)
       scenario_container hidden_section))) = ''100px''"
proof -
  define i1 where "i1 = (scenario_image [''top'', ''bottom''])\<lparr>img_height := 100, img_width := 200\<rparr>"
  define i2 where "i2 = (scenario_image [''right'', ''top'', ''left'', ''middle''])
          \<lparr>img_height := 100, img_width := 200\<rparr>"
  have t1: "targetHeight_of (positionImage i1 scenario_container hidden_section) = 100"
    "targetHeight_of_000 (positionImage_000 i1 scenario_container [hidden_section]) = 100"
    using positionImage_targets[of i1 scenario_container hidden_section]
      positionImage_000_targets[of i1 scenario_container "[hidden_section]"]
    by (simp_all add: i1_def maximised_def overflows_def scenario_eval)
  have t2: "targetHeight_of (positionImage i2 scenario_container hidden_section) = 100"
    using positionImage_targets[of i2 scenario_container hidden_section]
    by (simp_all add: i2_def maximised_def overflows_def scenario_eval)
  have c1: "classList i1 = [''top'', ''bottom'']" by (simp add: i1_def scenario_eval)
  have c2: "classList i2 = [''right'', ''top''] @ ''left'' # [''middle'']
      \<and> horizontal ''left'' \<and> (\<forall>c\<in>set [''middle'']. \<not> horizontal c)"
    by (simp add: i2_def scenario_eval horizontal_def)
  have c3: "classList i2 = [''right'', ''top'', ''left''] @ ''middle'' # []
      \<and> vertical ''middle'' \<and> (\<forall>c\<in>set []. \<not> vertical c)"
    by (simp add: i2_def scenario_eval vertical_def)
  have m: "computed i1 = scenario_computed" "computed i2 = scenario_computed"
    by (simp_all add: i1_def i2_def scenario_eval)
  from last_keyword_wins[of i1 "[]" "''top''" "[''bottom'']" scenario_container
      hidden_section "[hidden_section]"] c1
  have a: "st_top (style (img_of (positionImage i1 scenario_container hidden_section))) = ''200px''"
    "st_top (style (img_of_000 (positionImage_000 i1 scenario_container [hidden_section]))) = ''200px''"
    by (simp_all add: t1 m scenario_computed_def scenario_container_simps scenario_margins
       string_eval)
  from last_keyword_wins[of i2 "[''right'', ''top'']" "''left''" "[''middle'']"
      scenario_container hidden_section "[hidden_section]"] c2
  have b: "st_left (style (img_of (positionImage i2 scenario_container hidden_section))) = ''0px''"
    by (simp add: leftFor_def)
  from last_keyword_wins[of i2 "[''right'', ''top'', ''left'']" "''middle''" "[]"
      scenario_container hidden_section "[hidden_section]"] c3
  have c: "st_top (style (img_of (positionImage i2 scenario_container hidden_section))) = ''100px''"
    by (simp add: t2 m scenario_computed_def scenario_container_simps scenario_margins
       string_eval number_eval)
  show ?thesis using a b c unfolding i1_def i2_def by simp
qed

section \<open>The maximal sizes\<close>

lemma maximise_branches:
  "maximise cs ow oh pw ph mt mb mr ml =
     (if fgt (fdiv (num ow) (num pw)) (fdiv (num oh) (num ph))
      then (parseCSSValue (maxWidth cs) (num pw) - mr - ml,
            ToInt32 (fmul (fdiv (num (parseCSSValue (maxWidth cs) (num pw) - mr - ml))
                      (num ow)) (num oh)))
      else (ToInt32 (fmul (fdiv (num (parseCSSValue (maxHeight cs) (num ph) - mb - mt))
                      (num oh)) (num ow)),
            parseCSSValue (maxHeight cs) (num ph) - mb - mt))"
  by (simp add: maximise_def Let_def shift0)

lemma fitToContainer_branches:
  "fitToContainer cs ow oh pw ph mt mb mr ml =
     (if fgt (fdiv (num ow) (num pw)) (fdiv (num oh) (num ph))
      then (computeCSSValue (maxWidth cs) (num pw) - mr - ml,
            ToInt32 (fmul (fdiv (num (computeCSSValue (maxWidth cs) (num pw) - mr - ml))
                      (num ow)) (num oh)))
      else (ToInt32 (fmul (fdiv (num (computeCSSValue (maxHeight cs) (num ph) - mb - mt))
                      (num oh)) (num ow)),
            computeCSSValue (maxHeight cs) (num ph) - mb - mt))"
  by (simp add: fitToContainer_def Let_def shift0)

lemma positionImage_scaled:
  assumes "maximised img"
  shows "targetWidth_of (positionImage img c s) =
           fst (maximise (computed img) (int (img_width img)) (int (img_height img))
             (clientWidth c) (clientHeight c)
             (parseCSSValue (marginTop (computed img)) (num (clientHeight c)))
             (parseCSSValue (marginBottom (computed img)) (num (clientHeight c)))
             (parseCSSValue (marginRight (computed img)) (num (clientWidth c)))
             (parseCSSValue (marginLeft (computed img)) (num (clientWidth c))))"
    and "targetHeight_of (positionImage img c s) =
           snd (maximise (computed img) (int (img_width img)) (int (img_height img))
             (clientWidth c) (clientHeight c)
             (parseCSSValue (marginTop (computed img)) (num (clientHeight c)))
             (parseCSSValue (marginBottom (computed img)) (num (clientHeight c)))
             (parseCSSValue (marginRight (computed img)) (num (clientWidth c)))
             (parseCSSValue (marginLeft (computed img)) (num (clientWidth c))))"
  using assms by (simp_all add: positionImage_closed Let_def)

lemma positionImage_000_scaled:
  assumes "''fit-to-container'' \<in> set (classList img) \<or> overflows img c"
  shows "targetWidth_of_000 (positionImage_000 img c ss) =
           fst (fitToContainer (computed img) (int (img_width img)) (int (img_height img))
             (clientWidth c) (clientHeight c)
             (computeCSSValue (marginTop (computed img)) (num (clientHeight c)))
             (computeCSSValue (marginBottom (computed img)) (num (clientHeight c)))
             (computeCSSValue (marginRight (computed img)) (num (clientWidth c)))
             (computeCSSValue (marginLeft (computed img)) (num (clientWidth c))))"
    and "targetHeight_of_000 (positionImage_000 img c ss) =
           snd (fitToContainer (computed img) (int (img_width img)) (int (img_height img))
             (clientWidth c) (clientHeight c)
             (computeCSSValue (marginTop (computed img)) (num (clientHeight c)))
             (computeCSSValue (marginBottom (computed img)) (num (clientHeight c)))
             (computeCSSValue (marginRight (computed img)) (num (clientWidth c)))
             (computeCSSValue (marginLeft (computed img)) (num (clientWidth c))))"
  using assms by (simp_all add: positionImage_000_closed Let_def overflows_def)

text \<open>
  C7, as the code has it. When scaling is triggered, the target dimension that the
  branch taken resolves from its maximal size (the width when the width ratio exceeds
  the height ratio, the height otherwise) is that resolved maximal size minus the two
  margins of its axis, and so does not exceed it when the sum of those margins is not
  negative. The other target dimension is derived from it and is not compared with its
  own maximal size.
\<close>

theorem constrained_dimension_within_max:
  "(''fit-to-container'' \<in> set (classList img) \<or> overflows img c \<longrightarrow>
      (let r = positionImage_000 img c ss;
           mt = computeCSSValue (marginTop (computed img)) (num (clientHeight c));
           mb = computeCSSValue (marginBottom (computed img)) (num (clientHeight c));
           mr = computeCSSValue (marginRight (computed img)) (num (clientWidth c));
           ml = computeCSSValue (marginLeft (computed img)) (num (clientWidth c))
       in if fgt (fdiv (num (int (img_width img))) (num (clientWidth c)))
                 (fdiv (num (int (img_height img))) (num (clientHeight c)))
          then targetWidth_of_000 r =
                 computeCSSValue (maxWidth (computed img)) (num (clientWidth c)) - mr - ml
               \<and> (0 \<le> mr + ml \<longrightarrow> targetWidth_of_000 r
                     \<le> computeCSSValue (maxWidth (computed img)) (num (clientWidth c)))
          else targetHeight_of_000 r =
                 computeCSSValue (maxHeight (computed img)) (num (clientHeight c)) - mb - mt
               \<and> (0 \<le> mb + mt \<longrightarrow> targetHeight_of_000 r
                     \<le> computeCSSValue (maxHeight (computed img)) (num (clientHeight c)))))
   \<and> (maximised img \<longrightarrow>
      (let r = positionImage img c s;
           mt = parseCSSValue (marginTop (computed img)) (num (clientHeight c));
           mb = parseCSSValue (marginBottom (computed img)) (num (clientHeight c));
           mr = parseCSSValue (marginRight (computed img)) (num (clientWidth c));
           ml = parseCSSValue (marginLeft (computed img)) (num (clientWidth c))
       in if fgt (fdiv (num (int (img_width img))) (num (clientWidth c)))
                 (fdiv (num (int (img_height img))) (num (clientHeight c)))
          then targetWidth_of r =
                 parseCSSValue (maxWidth (computed img)) (num (clientWidth c)) - mr - ml
               \<and> (0 \<le> mr + ml \<longrightarrow> targetWidth_of r
                     \<le> parseCSSValue (maxWidth (computed img)) (num (clientWidth c)))
          else targetHeight_of r =
                 parseCSSValue (maxHeight (computed img)) (num (clientHeight c)) - mb - mt
               \<and> (0 \<le> mb + mt \<longrightarrow> targetHeight_of r
                     \<le> parseCSSValue (maxHeight (computed img)) (num (clientHeight c)))))"
  by (simp add: positionImage_scaled positionImage_000_scaled maximise_branches
        fitToContainer_branches Let_def)

theorem constrained_dimension_within_max_witness:
  "targetWidth_of_000 (positionImage_000 (scenario_image [''align'', ''fit-to-container''])
       scenario_container [hidden_section]) = 400
   \<and> computeCSSValue (maxWidth (computed (scenario_image [''align'', ''fit-to-container''])))
       (num (clientWidth scenario_container)) = 400
   \<and> targetWidth_of (positionImage (scenario_image [''align'', ''maximize''])
       scenario_container hidden_section) = 400
   \<and> parseCSSValue (maxWidth (computed (scenario_image [''align'', ''maximize''])))
       (num (clientWidth scenario_container)) = 400"
proof -
  have f: "''fit-to-container'' \<in> set (classList (scenario_image [''align'', ''fit-to-container'']))
      \<or> overflows (scenario_image [''align'', ''fit-to-container'']) scenario_container"
    by (simp add: scenario_eval)
  have m: "maximised (scenario_image [''align'', ''maximize''])"
    by (simp add: maximised_def scenario_eval)
  have b: "fgt (fdiv (num 800) (num 400)) (fdiv (num 300) (num 300))"
    by (simp add: number_eval)
  have p: "parseCSSValue ''100%'' (num 400) = 400" "computeCSSValue ''100%'' (num 400) = 400"
    by (simp_all add: parseCSSValue_def computeCSSValue_def parseInt_eval number_eval)
  show ?thesis
    using f m
      constrained_dimension_within_max [of "scenario_image [''align'', ''fit-to-container'']"
        scenario_container "[hidden_section]" hidden_section]
      constrained_dimension_within_max [of "scenario_image [''align'', ''maximize'']"
        scenario_container "[hidden_section]" hidden_section]
    by (simp add: Let_def b p scenario_margins scenario_container_simps scenario_image_def
          scenario_computed_def)
qed

text \<open>
  The claim as the specification states it fails for the derived dimension: with a
  maximal height of 100 pixels, the image of the scenario is scaled through its width
  to 400 by 150 pixels, and its target height exceeds the resolved maximal height.
\<close>

theorem derived_dimension_exceeds_max_counterexample:
  "(let img = (scenario_image [''align'', ''fit-to-container''])
                \<lparr>computed := scenario_computed\<lparr>maxHeight := ''100px''\<rparr>\<rparr>;
        r = positionImage_000 img scenario_container [hidden_section]
    in computeCSSValue (maxHeight (computed img)) (num (clientHeight scenario_container)) = 100
       \<and> targetHeight_of_000 r = 150
       \<and> computeCSSValue (maxHeight (computed img)) (num (clientHeight scenario_container))
           < targetHeight_of_000 r)"
proof -
  have p: "computeCSSValue ''100px'' (Fin 300) = 100" "computeCSSValue ''100%'' (Fin 400) = 400"
    by (simp_all add: computeCSSValue_def parseInt_eval number_eval)
  show ?thesis
    by (simp add: Let_def positionImage_000_scaled fitToContainer_branches scenario_eval
          scenario_margins p number_eval)
qed

section \<open>Axes without a keyword\<close>

lemma lastKeyword_None:
  "\<forall>c\<in>set classes. \<not> axis c \<Longrightarrow> lastKeyword axis classes = None"
  by (simp add: lastKeyword_def filter_empty_conv)

text \<open>
  The revision of \<open>plugin/position-images/position-images.js\<close> leaves the offset of
  an axis as it was when the class list has no keyword of that axis.
\<close>

lemma positionImage_untouched_axis:
  "\<forall>c\<in>set (classList img). \<not> vertical c \<Longrightarrow>
     st_top (style (img_of (positionImage img c s))) = st_top (style img)"
  "\<forall>c\<in>set (classList img). \<not> horizontal c \<Longrightarrow>
     st_left (style (img_of (positionImage img c s))) = st_left (style img)"
  by (simp_all add: positionImage_style lastKeyword_None)

lemma positionImage_000_default_axis:
  "\<forall>c\<in>set (classList img). \<not> vertical c \<Longrightarrow>
     st_top (style (img_of_000 (positionImage_000 img c ss))) = ''0''"
  "\<forall>c\<in>set (classList img). \<not> horizontal c \<Longrightarrow>
     st_left (style (img_of_000 (positionImage_000 img c ss))) = ''0''"
  by (simp_all add: positionImage_000_style lastKeyword_None)

text \<open>
  C8 on the later revision. An image whose only class is \<open>align\<close>, with a top
  offset of 10 pixels and a left offset of 20 pixels set before: the class list has no
  keyword of either axis, and \<open>positionImage\<close> of \<open>unnamed/part_000\<close> still assigns
  both offsets, from the variables \<open>imgTop\<close> and \<open>imgLeft\<close> that it starts at 0.
  The revision of \<open>plugin/position-images/position-images.js\<close> leaves both as they
  were.
\<close>

theorem offsets_assigned_without_keyword:
  "(let img = (scenario_image [''align''])
                \<lparr>style := unset_style\<lparr>st_top := ''10px'', st_left := ''20px''\<rparr>\<rparr>
    in lastKeyword vertical (classList img) = None
       \<and> lastKeyword horizontal (classList img) = None
       \<and> st_top (style (img_of_000
             (positionImage_000 img scenario_container [hidden_section]))) = ''0''
       \<and> st_left (style (img_of_000
             (positionImage_000 img scenario_container [hidden_section]))) = ''0''
       \<and> st_top (style (img_of
             (positionImage img scenario_container hidden_section))) = ''10px''
       \<and> st_left (style (img_of
             (positionImage img scenario_container hidden_section))) = ''20px'')"
  by (simp add: Let_def positionImage_style positionImage_000_style lastKeyword_def
        vertical_def horizontal_def scenario_image_def unset_style_def)

lemma SignedRightShift_0_range:
  "- (2 ^ 31) \<le> SignedRightShift x 0 \<and> SignedRightShift x 0 < 2 ^ 31"
  using ToInt32_range[of x] by (simp add: shift0)

lemma SignedRightShift_1_range:
  "- (2 ^ 30) \<le> SignedRightShift x 1 \<and> SignedRightShift x 1 < 2 ^ 30"
proof -
  have r: "- 2147483648 \<le> ToInt32 x" "ToInt32 x \<le> 2147483647"
    using ToInt32_range[of x] by simp_all
  have "(- 2147483648) div 2 \<le> ToInt32 x div 2" using r(1) by (rule zdiv_mono1) simp
  moreover have "ToInt32 x div 2 \<le> 2147483647 div 2" using r(2) by (rule zdiv_mono1) simp
  ultimately show ?thesis by (simp add: SignedRightShift_def)
qed

lemma normaliser_range:
  "- (2 ^ 31) \<le> parseCSSValue sv m \<and> parseCSSValue sv m < 2 ^ 31"
  "- (2 ^ 31) \<le> computeCSSValue sv m \<and> computeCSSValue sv m < 2 ^ 31"
  using SignedRightShift_0_range by (simp_all add: parseCSSValue_def computeCSSValue_def)

lemma ToInt32_wraps: "ToInt32 (Fin q) mod 2 ^ 32 = toward_zero q mod 2 ^ 32"
  using int32_cong[of "toward_zero q"] by simp

section \<open>The range of the shifted values\<close>

text \<open>
  C10, as the code has it. The values of the normaliser, the target dimension that the
  scaling step derives through the aspect ratio, and the offsets of \<open>middle\<close> and
  \<open>center\<close> or \<open>centre\<close> are results of \<open>>> 0\<close> or \<open>>> 1\<close>: integers of the
  signed 32-bit range, congruent modulo \<open>2^32\<close> to the truncated operand, and 0 for
  \<open>NaN\<close>. The target dimension taken from a maximal size is such a value minus two
  margins; it is not shifted, and it lies strictly between \<open>-3 * 2^31\<close> and
  \<open>3 * 2^31\<close>.
\<close>

theorem shifted_values_int32:
  "(- (2 ^ 31) \<le> parseCSSValue sv m \<and> parseCSSValue sv m < 2 ^ 31)
   \<and> (- (2 ^ 31) \<le> computeCSSValue sv m \<and> computeCSSValue sv m < 2 ^ 31)
   \<and> SignedRightShift NaN 0 = 0
   \<and> (- (2 ^ 31) \<le> SignedRightShift x 0 \<and> SignedRightShift x 0 < 2 ^ 31)
   \<and> SignedRightShift (Fin q) 0 mod 2 ^ 32 = toward_zero q mod 2 ^ 32
   \<and> (- (2 ^ 30) \<le> SignedRightShift x 1 \<and> SignedRightShift x 1 < 2 ^ 30)
   \<and> (''fit-to-container'' \<in> set (classList img) \<or> overflows img c \<longrightarrow>
        (let r = positionImage_000 img c ss
         in if fgt (fdiv (num (int (img_width img))) (num (clientWidth c)))
                   (fdiv (num (int (img_height img))) (num (clientHeight c)))
            then - (2 ^ 31) \<le> targetHeight_of_000 r \<and> targetHeight_of_000 r < 2 ^ 31
                 \<and> - (3 * 2 ^ 31) < targetWidth_of_000 r \<and> targetWidth_of_000 r < 3 * 2 ^ 31
            else - (2 ^ 31) \<le> targetWidth_of_000 r \<and> targetWidth_of_000 r < 2 ^ 31
                 \<and> - (3 * 2 ^ 31) < targetHeight_of_000 r
                 \<and> targetHeight_of_000 r < 3 * 2 ^ 31))
   \<and> (maximised img \<longrightarrow>
        (let r = positionImage img c s
         in if fgt (fdiv (num (int (img_width img))) (num (clientWidth c)))
                   (fdiv (num (int (img_height img))) (num (clientHeight c)))
            then - (2 ^ 31) \<le> targetHeight_of r \<and> targetHeight_of r < 2 ^ 31
                 \<and> - (3 * 2 ^ 31) < targetWidth_of r \<and> targetWidth_of r < 3 * 2 ^ 31
            else - (2 ^ 31) \<le> targetWidth_of r \<and> targetWidth_of r < 2 ^ 31
                 \<and> - (3 * 2 ^ 31) < targetHeight_of r \<and> targetHeight_of r < 3 * 2 ^ 31))
   \<and> topFor ''middle'' H th mt mb =
         NumberToString (SignedRightShift (num (H - th - mt - mb)) 1) @ ''px''
   \<and> leftFor ''center'' W tw ml mr =
         NumberToString (SignedRightShift (num (W - tw - ml - mr)) 1) @ ''px''
   \<and> leftFor ''centre'' W tw ml mr =
         NumberToString (SignedRightShift (num (W - tw - ml - mr)) 1) @ ''px''"
proof -
  note p = normaliser_range
  have a: "''fit-to-container'' \<in> set (classList img) \<or> overflows img c \<longrightarrow>
        (let r = positionImage_000 img c ss
         in if fgt (fdiv (num (int (img_width img))) (num (clientWidth c)))
                   (fdiv (num (int (img_height img))) (num (clientHeight c)))
            then - (2 ^ 31) \<le> targetHeight_of_000 r \<and> targetHeight_of_000 r < 2 ^ 31
                 \<and> - (3 * 2 ^ 31) < targetWidth_of_000 r \<and> targetWidth_of_000 r < 3 * 2 ^ 31
            else - (2 ^ 31) \<le> targetWidth_of_000 r \<and> targetWidth_of_000 r < 2 ^ 31
                 \<and> - (3 * 2 ^ 31) < targetHeight_of_000 r
                 \<and> targetHeight_of_000 r < 3 * 2 ^ 31)"
    using p(2)[of "maxWidth (computed img)" "num (clientWidth c)"]
      p(2)[of "maxHeight (computed img)" "num (clientHeight c)"]
      p(2)[of "marginTop (computed img)" "num (clientHeight c)"]
      p(2)[of "marginBottom (computed img)" "num (clientHeight c)"]
      p(2)[of "marginRight (computed img)" "num (clientWidth c)"]
      p(2)[of "marginLeft (computed img)" "num (clientWidth c)"]
      ToInt32_range
    by (simp add: positionImage_000_scaled fitToContainer_branches Let_def)
  have b: "maximised img \<longrightarrow>
        (let r = positionImage img c s
         in if fgt (fdiv (num (int (img_width img))) (num (clientWidth c)))
                   (fdiv (num (int (img_height img))) (num (clientHeight c)))
            then - (2 ^ 31) \<le> targetHeight_of r \<and> targetHeight_of r < 2 ^ 31
                 \<and> - (3 * 2 ^ 31) < targetWidth_of r \<and> targetWidth_of r < 3 * 2 ^ 31
            else - (2 ^ 31) \<le> targetWidth_of r \<and> targetWidth_of r < 2 ^ 31
                 \<and> - (3 * 2 ^ 31) < targetHeight_of r \<and> targetHeight_of r < 3 * 2 ^ 31)"
    using p(1)[of "maxWidth (computed img)" "num (clientWidth c)"]
      p(1)[of "maxHeight (computed img)" "num (clientHeight c)"]
      p(1)[of "marginTop (computed img)" "num (clientHeight c)"]
      p(1)[of "marginBottom (computed img)" "num (clientHeight c)"]
      p(1)[of "marginRight (computed img)" "num (clientWidth c)"]
      p(1)[of "marginLeft (computed img)" "num (clientWidth c)"]
      ToInt32_range
    by (simp add: positionImage_scaled maximise_branches Let_def)
  have c: "SignedRightShift (Fin q) 0 mod 2 ^ 32 = toward_zero q mod 2 ^ 32"
    using ToInt32_wraps[of q] by (simp add: shift0)
  have d: "SignedRightShift NaN 0 = 0" by (simp add: shift0)
  show ?thesis
    using p(1)[of sv m] p(2)[of sv m] SignedRightShift_0_range[of x]
      SignedRightShift_1_range[of x] a b c d
    by (simp add: topFor_def leftFor_def)
qed

theorem shifted_values_int32_witness:
  "parseCSSValue ''3000000000px'' (num 400) = - 1294967296
   \<and> - (2 ^ 31) \<le> parseCSSValue ''3000000000px'' (num 400)
   \<and> parseCSSValue ''3000000000px'' (num 400) < 2 ^ 31
   \<and> targetHeight_of_000 (positionImage_000 (scenario_image [''align''])
         scenario_container [hidden_section]) = 150
   \<and> targetHeight_of_000 (positionImage_000 (scenario_image [''align''])
         scenario_container [hidden_section]) < 2 ^ 31
   \<and> targetHeight_of (positionImage (scenario_image [''align'', ''maximize''])
         scenario_container hidden_section) < 2 ^ 31"
proof -
  have v: "parseCSSValue ''3000000000px'' (num 400) = - 1294967296"
    by (simp add: parseCSSValue_def parseInt_eval number_eval)
  have o: "''fit-to-container'' \<in> set (classList (scenario_image [''align'']))
      \<or> overflows (scenario_image [''align'']) scenario_container"
    by (simp add: overflows_def scenario_eval)
  have m: "maximised (scenario_image [''align'', ''maximize''])"
    by (simp add: maximised_def scenario_eval)
  have b: "fgt (fdiv (num (int (img_width (scenario_image cl))))
                  (num (clientWidth scenario_container)))
               (fdiv (num (int (img_height (scenario_image cl))))
                  (num (clientHeight scenario_container)))" for cl
    by (simp add: scenario_eval number_eval)
  have t: "targetHeight_of_000 (positionImage_000 (scenario_image [''align''])
         scenario_container [hidden_section]) = 150"
    using o by (simp add: positionImage_000_scaled scenario_container_simps
        scenario_image_def scenario_margins
        scenario_fitToContainer[unfolded scenario_computed_def] scenario_computed_def)
  show ?thesis
    using v t o m b
      shifted_values_int32 [where sv = "''3000000000px''" and m = "num 400"
        and img = "scenario_image [''align'']" and c = scenario_container
        and ss = "[hidden_section]"]
      shifted_values_int32 [where img = "scenario_image [''align'', ''maximize'']"
        and c = scenario_container and s = hidden_section]
    by (simp add: Let_def)
qed

text \<open>
  The claim as the specification states it fails for the target dimension taken from
  a maximal size: with a maximal width of \<open>2147483647px\<close> and a left margin of
  \<open>-1px\<close>, an image of 1024 by 256 pixels in a container of 512 by 256 pixels gets
  the target width \<open>2^31\<close>, outside the signed 32-bit range.
\<close>

theorem target_width_beyond_int32_counterexample:
  "(let img = (scenario_image [''align'', ''fit-to-container''])
                \<lparr>img_height := 256, img_width := 1024,
                 computed := scenario_computed
                   \<lparr>maxWidth := ''2147483647px'', marginLeft := ''-1px''\<rparr>\<rparr>;
        c = scenario_container\<lparr>clientHeight := 256, clientWidth := 512\<rparr>
    in targetWidth_of_000 (positionImage_000 img c [hidden_section]) = 2147483648
       \<and> \<not> targetWidth_of_000 (positionImage_000 img c [hidden_section]) < 2 ^ 31
       \<and> targetWidth_of (positionImage (img\<lparr>classList := [''align'', ''maximize'']\<rparr>)
            c hidden_section) = 2147483648)"
proof -
  have p: "computeCSSValue ''2147483647px'' m = 2147483647" "computeCSSValue ''-1px'' m = - 1"
    "parseCSSValue ''2147483647px'' m = 2147483647" "parseCSSValue ''-1px'' m = - 1" for m
    by (simp_all add: computeCSSValue_def parseCSSValue_def parseInt_eval number_eval)
  show ?thesis
    by (simp add: Let_def positionImage_000_scaled positionImage_scaled maximised_def
          fitToContainer_branches maximise_branches scenario_eval scenario_margins p
          number_eval)
qed

section \<open>The value of the normaliser\<close>

lemma round_double_29_percent:
  "round_double (29 / 100) = Fin (5224175567749775 / 18014398509481984)"
  "round_double (5224175567749775 / 18014398509481984 * 100)
     = Fin (8162774324609023 / 281474976710656)"
  "round_double (130604389193744375 / 4503599627370496)
     = Fin (8162774324609023 / 281474976710656)"
  by code_simp+

text \<open>
  C3, as the code has it. Let \<open>parseInt\<close> read the integer \<open>n\<close> at the head of the
  string. Without a percent sign the normaliser returns \<open>n\<close>, provided \<open>n\<close> is in
  the signed 32-bit range. With a percent sign and an integer multiplier \<open>k\<close> such that
  \<open>n * k / 100\<close> is within the signed 32-bit range, it returns \<open>n * k / 100\<close>
  truncated toward zero, except that when \<open>n * k / 100\<close> is a non-zero integer the
  binary64 division and multiplication can fall short of it, and the result can be that
  integer moved by one toward zero. \<open>normalize("50%", 200)\<close> is 100 and
  \<open>normalize("30px", 200)\<close> is 30. Both names of the normaliser compute the same.
\<close>

theorem normalised_value:
  "(CHR ''%'' \<notin> set sv \<and> parseInt sv = num n \<and> - (2 ^ 31) \<le> n \<and> n < 2 ^ 31 \<longrightarrow>
      parseCSSValue sv m = n \<and> computeCSSValue sv m = n)
   \<and> (CHR ''%'' \<in> set sv \<and> parseInt sv = num n \<and> \<bar>n * k\<bar> < 100 * 2 ^ 31 \<longrightarrow>
      (parseCSSValue sv (num k) = toward_zero (of_int (n * k) / 100)
       \<or> (100 dvd n * k \<and> n * k \<noteq> 0
           \<and> parseCSSValue sv (num k) = n * k div 100 - sgn (n * k)))
      \<and> computeCSSValue sv (num k) = parseCSSValue sv (num k))
   \<and> parseCSSValue ''50%'' (num 200) = 100 \<and> computeCSSValue ''50%'' (num 200) = 100
   \<and> parseCSSValue ''30px'' (num 200) = 30 \<and> computeCSSValue ''30px'' (num 200) = 30"
proof (intro conjI impI)
  assume h: "CHR ''%'' \<notin> set sv \<and> parseInt sv = num n \<and> - (2 ^ 31) \<le> n \<and> n < 2 ^ 31"
  then have "int32 n = n" by (intro int32_id) simp_all
  with h show "parseCSSValue sv m = n" "computeCSSValue sv m = n"
    by (simp_all add: parseCSSValue_def computeCSSValue_def shift0 num_def toward_zero_of_int)
next
  assume h: "CHR ''%'' \<in> set sv \<and> parseInt sv = num n \<and> \<bar>n * k\<bar> < 100 * 2 ^ 31"
  then have r: "\<bar>n * k\<bar> < 2 ^ 31 * 100" "\<bar>n * k\<bar> \<le> 2 ^ 51" by simp_all
  have v: "parseCSSValue sv (num k) = ToInt32 (fmul (fdiv (num n) (num 100)) (num k))"
    using h by (simp add: parseCSSValue_def shift0)
  from scaled_trunc[of 100 n k, OF _ _ r(2) r(1)]
  show "parseCSSValue sv (num k) = toward_zero (of_int (n * k) / 100)
       \<or> (100 dvd n * k \<and> n * k \<noteq> 0
           \<and> parseCSSValue sv (num k) = n * k div 100 - sgn (n * k))"
    unfolding v by simp
  show "computeCSSValue sv (num k) = parseCSSValue sv (num k)"
    by (simp add: compute_eq_parse)
qed (simp_all add: parseCSSValue_def computeCSSValue_def parseInt_eval number_eval)

theorem normalised_value_witness:
  "parseInt ''30px'' = num 30 \<and> parseCSSValue ''30px'' (num 200) = 30
   \<and> parseInt ''-12.5%'' = num (- 12) \<and> parseCSSValue ''-12.5%'' (num 30) = - 3"
proof -
  have a: "CHR ''%'' \<notin> set ''30px'' \<and> parseInt ''30px'' = num 30
      \<and> - (2 ^ 31) \<le> (30::int) \<and> (30::int) < 2 ^ 31"
    by (simp add: parseInt_eval number_eval)
  have b: "CHR ''%'' \<in> set ''-12.5%'' \<and> parseInt ''-12.5%'' = num (- 12)
      \<and> \<bar>- 12 * 30\<bar> < (100 * 2 ^ 31 :: int)"
    by (simp add: parseInt_eval number_eval)
  have c: "toward_zero (of_int (- 12 * 30) / 100) = - 3" "\<not> 100 dvd (- 12 * 30 :: int)"
    by (simp_all add: number_eval)
  show ?thesis
    using a b c normalised_value [of "''30px''" 30 "num 200"]
      normalised_value [of "''-12.5%''" "- 12" _ 30]
    by auto
qed

text \<open>
  The claim as the specification states it fails on both branches: \<open>"3000000000px"\<close>
  has the numeric portion 3000000000 and is normalised to \<open>-1294967296\<close>, and
  \<open>"29%"\<close> of 100 is normalised to 28, although 29 / 100 * 100 truncated is 29.
\<close>

theorem truncation_counterexample:
  "parseInt ''3000000000px'' = num 3000000000
   \<and> parseCSSValue ''3000000000px'' (num 200) = - 1294967296
   \<and> computeCSSValue ''3000000000px'' (num 200) = - 1294967296
   \<and> parseInt ''29%'' = num 29
   \<and> parseCSSValue ''29%'' (num 100) = 28 \<and> computeCSSValue ''29%'' (num 100) = 28
   \<and> toward_zero (29 / 100 * 100) = 29"
  by (simp add: parseCSSValue_def computeCSSValue_def parseInt_eval number_eval
        round_double_29_percent)

section \<open>The aspect ratio\<close>

lemma toward_zero_error: "\<bar>of_int (toward_zero x) - x\<bar> < 1"
proof (cases "0 \<le> x")
  case True
  then show ?thesis unfolding toward_zero_def using floor_correct[of x] by simp
next
  case False
  then show ?thesis unfolding toward_zero_def using ceiling_correct[of x] by simp
qed

lemma scaled_within_one:
  fixes a b c :: int
  assumes b: "0 < b" "b \<le> 2 ^ 64"
    and ac: "\<bar>a * c\<bar> \<le> 2 ^ 51" and r: "\<bar>a * c\<bar> < 2 ^ 31 * b"
  shows "\<bar>of_int (ToInt32 (fmul (fdiv (num a) (num b)) (num c)))
            - of_int (a * c) / of_int b\<bar> \<le> (1 :: rat)"
proof -
  define t where "t = ToInt32 (fmul (fdiv (num a) (num b)) (num c))"
  from scaled_trunc[OF b ac r, folded t_def]
  show ?thesis unfolding t_def[symmetric]
  proof
    assume "t = toward_zero (of_int (a * c) / of_int b)"
    then show "\<bar>of_int t - of_int (a * c) / of_int b\<bar> \<le> (1 :: rat)"
      using toward_zero_error[of "of_int (a * c) / of_int b"] by simp
  next
    assume h: "b dvd a * c \<and> a * c \<noteq> 0 \<and> t = a * c div b - sgn (a * c)"
    then obtain k where k: "a * c = b * k" by (auto simp: dvd_def)
    have x: "(of_int (a * c) :: rat) / of_int b = of_int k"
      using b unfolding k by simp
    have d: "a * c div b = k" using b by (simp add: k)
    have "of_int t - (of_int (a * c) :: rat) / of_int b = - of_int (sgn (a * c))"
      using h unfolding x d by simp
    moreover have "\<bar>sgn (a * c)\<bar> \<le> 1" by (simp add: sgn_if)
    then have "\<bar>(of_int (sgn (a * c)) :: rat)\<bar> \<le> 1"
      by (metis of_int_abs of_int_le_1_iff)
    ultimately show "\<bar>of_int t - of_int (a * c) / of_int b\<bar> \<le> (1 :: rat)"
      by simp
  qed
qed

text \<open>
  C6, as the code has it. For a natural dimension \<open>(w, h)\<close> with \<open>w, h > 0\<close> on which
  scaling is triggered, the target dimension derived through the aspect ratio differs
  by at most one pixel from the exact proportional value (\<open>targetWidth * h / w\<close> for the
  height in the width branch, \<open>targetHeight * w / h\<close> for the width in the other),
  provided that exact value is within the signed 32-bit range and the product under
  the division does not exceed \<open>2^51\<close> in magnitude. The natural dimensions are
  attributes of type unsigned long, below \<open>2^32\<close>.
\<close>

theorem aspect_ratio_within_one_pixel:
  "0 < img_width img \<and> 0 < img_height img
     \<and> img_width img < 2 ^ 32 \<and> img_height img < 2 ^ 32 \<longrightarrow>
   (maximised img \<longrightarrow>
      (let r = positionImage img c s;
           w = int (img_width img); h = int (img_height img);
           tw = targetWidth_of r; th = targetHeight_of r
       in if fgt (fdiv (num w) (num (clientWidth c))) (fdiv (num h) (num (clientHeight c)))
          then \<bar>tw * h\<bar> \<le> 2 ^ 51 \<and> \<bar>tw * h\<bar> < 2 ^ 31 * w \<longrightarrow>
                 \<bar>of_int th - of_int (tw * h) / of_int w\<bar> \<le> (1 :: rat)
          else \<bar>th * w\<bar> \<le> 2 ^ 51 \<and> \<bar>th * w\<bar> < 2 ^ 31 * h \<longrightarrow>
                 \<bar>of_int tw - of_int (th * w) / of_int h\<bar> \<le> (1 :: rat)))
   \<and> (''fit-to-container'' \<in> set (classList img) \<or> overflows img c \<longrightarrow>
      (let r = positionImage_000 img c ss;
           w = int (img_width img); h = int (img_height img);
           tw = targetWidth_of_000 r; th = targetHeight_of_000 r
       in if fgt (fdiv (num w) (num (clientWidth c))) (fdiv (num h) (num (clientHeight c)))
          then \<bar>tw * h\<bar> \<le> 2 ^ 51 \<and> \<bar>tw * h\<bar> < 2 ^ 31 * w \<longrightarrow>
                 \<bar>of_int th - of_int (tw * h) / of_int w\<bar> \<le> (1 :: rat)
          else \<bar>th * w\<bar> \<le> 2 ^ 51 \<and> \<bar>th * w\<bar> < 2 ^ 31 * h \<longrightarrow>
                 \<bar>of_int tw - of_int (th * w) / of_int h\<bar> \<le> (1 :: rat)))"
proof (intro impI conjI)
  assume d: "0 < img_width img \<and> 0 < img_height img
     \<and> img_width img < 2 ^ 32 \<and> img_height img < 2 ^ 32"
  define w h where "w = int (img_width img)" and "h = int (img_height img)"
  have w: "0 < w" "w \<le> 2 ^ 64" and h: "0 < h" "h \<le> 2 ^ 64"
    using d by (simp_all add: w_def h_def)
  note sw = scaled_within_one[OF w]
  note sh = scaled_within_one[OF h]
  {
    assume m: "maximised img"
    show "let r = positionImage img c s;
           w = int (img_width img); h = int (img_height img);
           tw = targetWidth_of r; th = targetHeight_of r
       in if fgt (fdiv (num w) (num (clientWidth c))) (fdiv (num h) (num (clientHeight c)))
          then \<bar>tw * h\<bar> \<le> 2 ^ 51 \<and> \<bar>tw * h\<bar> < 2 ^ 31 * w \<longrightarrow>
                 \<bar>of_int th - of_int (tw * h) / of_int w\<bar> \<le> (1 :: rat)
          else \<bar>th * w\<bar> \<le> 2 ^ 51 \<and> \<bar>th * w\<bar> < 2 ^ 31 * h \<longrightarrow>
                 \<bar>of_int tw - of_int (th * w) / of_int h\<bar> \<le> (1 :: rat)"
      unfolding Let_def positionImage_scaled[OF m] maximise_branches w_def[symmetric]
        h_def[symmetric]
      using sw sh by (auto simp del: of_int_mult)
  }
  {
    assume f: "''fit-to-container'' \<in> set (classList img) \<or> overflows img c"
    show "let r = positionImage_000 img c ss;
           w = int (img_width img); h = int (img_height img);
           tw = targetWidth_of_000 r; th = targetHeight_of_000 r
       in if fgt (fdiv (num w) (num (clientWidth c))) (fdiv (num h) (num (clientHeight c)))
          then \<bar>tw * h\<bar> \<le> 2 ^ 51 \<and> \<bar>tw * h\<bar> < 2 ^ 31 * w \<longrightarrow>
                 \<bar>of_int th - of_int (tw * h) / of_int w\<bar> \<le> (1 :: rat)
          else \<bar>th * w\<bar> \<le> 2 ^ 51 \<and> \<bar>th * w\<bar> < 2 ^ 31 * h \<longrightarrow>
                 \<bar>of_int tw - of_int (th * w) / of_int h\<bar> \<le> (1 :: rat)"
      unfolding Let_def positionImage_000_scaled[OF f] fitToContainer_branches
        w_def[symmetric] h_def[symmetric]
      using sw sh by (auto simp del: of_int_mult)
  }
qed

lemma round_double_portrait:
  "round_double (3 / 8) = Fin (3 / 8)" "round_double (225 / 2) = Fin (225 / 2)"
  by code_simp+

theorem aspect_ratio_within_one_pixel_witness:
  "targetWidth_of (positionImage (scenario_image [''align'', ''maximize''])
       scenario_container hidden_section) = 400
   \<and> targetHeight_of (positionImage (scenario_image [''align'', ''maximize''])
       scenario_container hidden_section) = 150
   \<and> \<bar>of_int (targetHeight_of (positionImage (scenario_image [''align'', ''maximize''])
           scenario_container hidden_section))
        - of_int (targetWidth_of (positionImage (scenario_image [''align'', ''maximize''])
           scenario_container hidden_section) * 300) / of_int 800\<bar> \<le> (1 :: rat)
   \<and> targetHeight_of_000 (positionImage_000
         ((scenario_image [''align''])\<lparr>img_height := 800, img_width := 300\<rparr>)
         scenario_container [hidden_section]) = 300
   \<and> targetWidth_of_000 (positionImage_000
         ((scenario_image [''align''])\<lparr>img_height := 800, img_width := 300\<rparr>)
         scenario_container [hidden_section]) = 112
   \<and> \<bar>of_int (targetWidth_of_000 (positionImage_000
           ((scenario_image [''align''])\<lparr>img_height := 800, img_width := 300\<rparr>)
           scenario_container [hidden_section]))
        - of_int (targetHeight_of_000 (positionImage_000
           ((scenario_image [''align''])\<lparr>img_height := 800, img_width := 300\<rparr>)
           scenario_container [hidden_section]) * 300) / of_int 800\<bar> \<le> (1 :: rat)"
proof -
  define X where "X = scenario_image [''align'', ''maximize'']"
  define Y where "Y = (scenario_image [''align''])\<lparr>img_height := 800, img_width := 300\<rparr>"
  have d: "0 < img_width X \<and> 0 < img_height X
     \<and> img_width X < 2 ^ 32 \<and> img_height X < 2 ^ 32"
    "0 < img_width Y \<and> 0 < img_height Y
     \<and> img_width Y < 2 ^ 32 \<and> img_height Y < 2 ^ 32"
    by (simp_all add: X_def Y_def scenario_image_def)
  have m: "maximised X" by (simp add: X_def maximised_def scenario_image_def)
  have f: "''fit-to-container'' \<in> set (classList Y) \<or> overflows Y scenario_container"
    by (simp add: Y_def overflows_def scenario_eval)
  have wh: "int (img_width X) = 800" "int (img_height X) = 300"
    "int (img_width Y) = 300" "int (img_height Y) = 800"
    by (simp_all add: X_def Y_def scenario_image_def)
  have b0: "\<not> fgt (fdiv (num 300) (num 400)) (fdiv (num 800) (num 300))"
    by code_simp
  have b: "fgt (fdiv (num 800) (num (clientWidth scenario_container)))
               (fdiv (num 300) (num (clientHeight scenario_container)))"
    "\<not> fgt (fdiv (num 300) (num (clientWidth scenario_container)))
               (fdiv (num 800) (num (clientHeight scenario_container)))"
    using b0 by (simp_all add: scenario_container_simps number_eval)
  have t: "targetWidth_of (positionImage X scenario_container hidden_section) = 400"
    "targetHeight_of (positionImage X scenario_container hidden_section) = 150"
    using m by (simp_all add: positionImage_scaled X_def scenario_container_simps
        scenario_image_def scenario_margins
        scenario_maximise[unfolded scenario_computed_def] scenario_computed_def)
  have p: "computeCSSValue ''100%'' (Fin 300) = 300"
    by (simp add: computeCSSValue_def parseInt_eval number_eval)
  have u: "targetHeight_of_000 (positionImage_000 Y scenario_container [hidden_section]) = 300"
    "targetWidth_of_000 (positionImage_000 Y scenario_container [hidden_section]) = 112"
    unfolding positionImage_000_scaled[OF f] fitToContainer_branches wh
    using b(2)
    by (simp_all add: Y_def scenario_container_simps scenario_image_def
        scenario_computed_def scenario_margins p number_eval round_double_portrait)
  from aspect_ratio_within_one_pixel[of X scenario_container hidden_section] d(1) m
  have 1: "\<bar>of_int (targetHeight_of (positionImage X scenario_container hidden_section))
        - of_int (targetWidth_of (positionImage X scenario_container hidden_section) * 300)
            / of_int 800\<bar> \<le> (1 :: rat)"
    unfolding Let_def wh using b(1) by (simp add: t)
  from aspect_ratio_within_one_pixel[of Y scenario_container _ "[hidden_section]"] d(2) f
  have 2: "\<bar>of_int (targetWidth_of_000 (positionImage_000 Y scenario_container [hidden_section]))
        - of_int (targetHeight_of_000 (positionImage_000 Y scenario_container [hidden_section])
            * 300) / of_int 800\<bar> \<le> (1 :: rat)"
    unfolding Let_def wh using b(2) by (simp add: u)
  show ?thesis using t u 1 2 unfolding X_def Y_def by simp
qed

text \<open>
  The claim as the specification states it fails when the scaled value leaves the
  signed 32-bit range: an image of 1 by 3000000 pixels with the class \<open>maximize\<close> and
  a maximal width of 1000 pixels, in a container of 1 by 6000000 pixels, is scaled
  through its width to the target width 1000, and its target height is
  \<open>-1294967296\<close> where the aspect ratio asks for 3000000000.
\<close>

theorem aspect_ratio_wraps_counterexample:
  "(let img = (scenario_image [''align'', ''maximize''])
                \<lparr>img_height := 3000000, img_width := 1,
                 computed := scenario_computed\<lparr>maxWidth := ''1000px''\<rparr>\<rparr>;
        c = scenario_container\<lparr>clientHeight := 6000000, clientWidth := 1\<rparr>;
        r = positionImage img c hidden_section
    in maximised img \<and> 0 < img_width img \<and> 0 < img_height img
       \<and> targetWidth_of r = 1000 \<and> targetHeight_of r = - 1294967296
       \<and> (of_int (targetWidth_of r) * of_int (int (img_height img))
            / of_int (int (img_width img)) :: rat) = 3000000000
       \<and> 1 < \<bar>of_int (targetHeight_of r)
                - (of_int (targetWidth_of r) * of_int (int (img_height img))
                    / of_int (int (img_width img)) :: rat)\<bar>)"
proof -
  have p: "parseCSSValue ''1000px'' m = 1000" for m
    by (simp add: parseCSSValue_def parseInt_eval number_eval)
  show ?thesis
    by (simp add: Let_def positionImage_scaled maximised_def maximise_branches
          scenario_eval scenario_margins p number_eval)
qed

end
